theory Spec2Isabelle
  imports Complex_Main
begin

section \<open>The prefix-exploration engine: DiscoveryServiceV3\<close>

text \<open>
  A shallow embedding of the class \<open>DiscoveryServiceV3\<close>. The instance fields become a
  record that every method takes and returns. JavaScript strings are character lists,
  integer-valued numbers are \<open>nat\<close> (counters that only grow, lengths) or \<open>int\<close>
  (scores, options, the count of active requests), and the one fractional statistic,
  \<open>efficiency\<close>, is a rational: the exact quotient of the two counters. A \<open>Map\<close> is
  a partial function.

  \<open>processPrefix\<close> is an async method. It is modelled twice. The function
  \<open>processPrefix\<close> is one call chain run to its end without interruption: the awaited
  timers change no field and are left out, and the awaited network call is a read of the
  environment. The functions \<open>processPrefix_enter\<close>, \<open>processPrefix_answered\<close> and
  \<open>processPrefix_resumed\<close> are the stretches of the method between two awaits, and the
  relation \<open>asyncRun\<close> interleaves the stretches of any number of call chains with the
  other methods. The event callback receives copies of the statistics and changes no
  field; it is left out.
\<close>

subsection \<open>Data\<close>

record DiscoveryOptions =
  delayBetweenRequests :: int
  maxConcurrentRequests :: int
  maxRetries :: int
  initialPrefixes :: "string list"
  mlEnabled :: bool

record DiscoveryStats =
  totalRequests :: nat
  successfulRequests :: nat
  failedRequests :: nat
  uniqueNames :: "string list"
  rateLimited :: nat
  exploredPrefixes :: "string list"
  skippedPrefixes :: "string list"
  currentPrefixes :: "string list"
  blockedPrefixes :: "string list"
  efficiency :: rat

text \<open>
  The fields of the class. \<open>fetchLog\<close> is not a field of the source: it is a ghost
  field that records, in order, the prefix of every request handed to \<open>fetch\<close>, so that
  the number of network queries can be stated. No method reads it except to number the
  next request.
\<close>

record DiscoveryServiceV3 =
  stats :: DiscoveryStats
  options :: DiscoveryOptions
  isRunning :: bool
  isPaused :: bool
  prefixQueue :: "string list"
  activeRequests :: int
  prefixPatterns :: "string \<rightharpoonup> int"
  nameFrequencyMap :: "string \<rightharpoonup> nat"
  cachedResults :: "string \<rightharpoonup> string list"
  commonNames :: "string set"
  namePatterns :: "string \<rightharpoonup> nat"
  requestTimestamps :: "nat list"
  simulationMode :: bool
  fetchLog :: "string list"

text \<open>
  What the remote endpoint can answer to one request. \<open>FetchRejected\<close>: the promise of
  \<open>fetch\<close> rejects (network unreachable, CORS). \<open>Http status body\<close>: a response
  with that status code; \<open>response.ok\<close> is true for the codes 200 to 299. The body is
  \<open>BadJson\<close> when \<open>response.json()\<close> rejects or yields a value without properties, and
  \<open>Json r\<close> otherwise, \<open>r\<close> being the array of strings \<open>data.results\<close> when there
  is one and \<open>None\<close> when \<open>data.results\<close> is missing, so that \<open>[]\<close> is taken. A
  \<open>results\<close> value of another shape is not modelled.
\<close>

datatype body = BadJson | Json "string list option"

datatype response = FetchRejected | Http nat body

text \<open>
  The environment of a run: the answer to the \<open>k\<close>-th request (counted from 0 over the
  life of the object) for a prefix, and the value of \<open>Date.now()\<close> at that request.
\<close>

record env =
  fetch :: "nat \<Rightarrow> string \<Rightarrow> response"
  now :: "nat \<Rightarrow> nat"

definition ok :: "nat \<Rightarrow> bool" where
  "ok status = (200 \<le> status \<and> status \<le> 299)"

definition startsWith :: "string \<Rightarrow> string \<Rightarrow> bool" where
  "startsWith str searchString = (take (length searchString) str = searchString)"

subsection \<open>Construction and reset\<close>

definition highValuePrefixes :: "string list" where
  "highValuePrefixes =
     [''a'', ''b'', ''c'', ''d'', ''e'', ''j'', ''k'', ''l'', ''m'', ''n'', ''r'', ''s'', ''t'',
      ''ja'', ''jo'', ''ma'', ''mi'', ''sa'', ''st'', ''ch'', ''th'', ''an'', ''br'']"

definition commonEnglishNames :: "string list" where
  "commonEnglishNames =
     [''james'', ''john'', ''robert'', ''michael'', ''william'', ''david'', ''joseph'', ''charles'',
      ''thomas'', ''mary'', ''patricia'', ''jennifer'', ''linda'', ''elizabeth'', ''barbara'',
      ''susan'', ''jessica'', ''sarah'', ''karen'', ''lisa'', ''nancy'', ''betty'', ''sandra'']"

definition emptyStats :: DiscoveryStats where
  "emptyStats =
     \<lparr>totalRequests = 0, successfulRequests = 0, failedRequests = 0, uniqueNames = [],
      rateLimited = 0, exploredPrefixes = [], skippedPrefixes = [], currentPrefixes = [],
      blockedPrefixes = [], efficiency = 0\<rparr>"

text \<open>
  \<open>initializeCommonNames\<close>: every name is added to \<open>commonNames\<close>, and each of its
  prefixes of length \<open>i\<close>, for \<open>1 \<le> i \<le> 3\<close> and \<open>i < name.length\<close>, is counted in
  \<open>namePatterns\<close>. The loop touches these two fields only, each on its own.
\<close>

definition initializeCommonNames :: "DiscoveryServiceV3 \<Rightarrow> DiscoveryServiceV3" where
  "initializeCommonNames s =
     s\<lparr>commonNames := fold insert commonEnglishNames (commonNames s),
       namePatterns :=
         fold (\<lambda>name m1.
                 fold (\<lambda>i m2.
                         m2(take i name \<mapsto> (case m2 (take i name) of None \<Rightarrow> 0 | Some c \<Rightarrow> c) + 1))
                      [1 ..< min 4 (length name)] m1)
              commonEnglishNames (namePatterns s)\<rparr>"

text \<open>
  The constructor. Its argument is a \<open>Partial<DiscoveryOptions>\<close>: each option may be
  absent, and \<open>??\<close> then takes the default.
\<close>

record PartialOptions =
  delayBetweenRequests_opt :: "int option"
  maxConcurrentRequests_opt :: "int option"
  maxRetries_opt :: "int option"
  initialPrefixes_opt :: "string list option"
  mlEnabled_opt :: "bool option"

definition nullish :: "'a option \<Rightarrow> 'a \<Rightarrow> 'a" where
  "nullish v d = (case v of None \<Rightarrow> d | Some x \<Rightarrow> x)"

definition new_DiscoveryServiceV3 :: "PartialOptions \<Rightarrow> DiscoveryServiceV3" where
  "new_DiscoveryServiceV3 opts =
     initializeCommonNames
       \<lparr>stats = emptyStats,
        options = \<lparr>delayBetweenRequests = nullish (delayBetweenRequests_opt opts) 250,
                   maxConcurrentRequests = nullish (maxConcurrentRequests_opt opts) 4,
                   maxRetries = nullish (maxRetries_opt opts) 3,
                   initialPrefixes = nullish (initialPrefixes_opt opts) highValuePrefixes,
                   mlEnabled = nullish (mlEnabled_opt opts) True\<rparr>,
        isRunning = False, isPaused = False, prefixQueue = [], activeRequests = 0,
        prefixPatterns = Map.empty, nameFrequencyMap = Map.empty, cachedResults = Map.empty,
        commonNames = {}, namePatterns = Map.empty, requestTimestamps = [],
        simulationMode = False, fetchLog = []\<rparr>"

definition alphabet :: string where
  "alphabet = ''abcdefghijklmnopqrstuvwxyz''"

text \<open>
  \<open>start\<close>, up to its last statement: the call of \<open>processQueue\<close> that ends it is
  the scheduler, which hands the queued prefixes to \<open>processPrefix\<close>.
\<close>

definition start :: "DiscoveryServiceV3 \<Rightarrow> DiscoveryServiceV3" where
  "start s =
     (if isRunning s then s
      else s\<lparr>isRunning := True, isPaused := False,
             prefixQueue := (if mlEnabled (options s) then initialPrefixes (options s)
                             else map (\<lambda>c. [c]) alphabet)\<rparr>)"

text \<open>\<open>stop\<close> clears the two flags; the promise it returns changes no field.\<close>

definition stop :: "DiscoveryServiceV3 \<Rightarrow> DiscoveryServiceV3" where
  "stop s = s\<lparr>isRunning := False, isPaused := False\<rparr>"

definition reset :: "DiscoveryServiceV3 \<Rightarrow> DiscoveryServiceV3" where
  "reset s =
     (stop s)\<lparr>stats := emptyStats, prefixQueue := [], prefixPatterns := Map.empty,
              nameFrequencyMap := Map.empty, cachedResults := Map.empty,
              requestTimestamps := []\<rparr>"

definition enableSimulationMode :: "bool \<Rightarrow> DiscoveryServiceV3 \<Rightarrow> DiscoveryServiceV3" where
  "enableSimulationMode enabled s = s\<lparr>simulationMode := enabled\<rparr>"

subsection \<open>Rate controller\<close>

text \<open>
  \<open>calculateOptimalConcurrency\<close> returns the ceiling and, as a side effect, trims the
  timestamp history to its last 100 entries.
\<close>

definition calculateOptimalConcurrency :: "DiscoveryServiceV3 \<Rightarrow> int \<times> DiscoveryServiceV3" where
  "calculateOptimalConcurrency s =
     (if length (requestTimestamps s) \<ge> 10 then
        (let concurrency =
               (if rateLimited (stats s) > 0 then max 1 (maxConcurrentRequests (options s) - 1)
                else if successfulRequests (stats s) > 10 \<and> rateLimited (stats s) = 0
                     then min (maxConcurrentRequests (options s)) 5
                else 1);
             s1 = (if length (requestTimestamps s) > 100
                   then s\<lparr>requestTimestamps :=
                            drop (length (requestTimestamps s) - 100) (requestTimestamps s)\<rparr>
                   else s)
         in (concurrency, s1))
      else (1, s))"

subsection \<open>Pattern scorer and branch blocker\<close>

definition getPatternScore :: "DiscoveryServiceV3 \<Rightarrow> string \<Rightarrow> int" where
  "getPatternScore s prefix =
     (if length prefix \<le> 1 then 3
      else case prefixPatterns s prefix of
        Some direct \<Rightarrow> direct
      | None \<Rightarrow>
         (case prefixPatterns s (butlast prefix) of
            Some parentScore \<Rightarrow> max 0 (parentScore - 1)
          | None \<Rightarrow>
             (case namePatterns s prefix of
                Some c \<Rightarrow> min 4 (int c)
              | None \<Rightarrow> max 0 (3 - int (length prefix)))))"

definition updatePatternScore :: "DiscoveryServiceV3 \<Rightarrow> string \<Rightarrow> nat \<Rightarrow> DiscoveryServiceV3" where
  "updatePatternScore s prefix resultCount =
     (let score = (if resultCount > 8 then 5
                   else if resultCount > 5 then 4
                   else if resultCount > 2 then 3
                   else if resultCount > 0 then 2
                   else 0);
          s1 = s\<lparr>prefixPatterns := (prefixPatterns s)(prefix \<mapsto> score)\<rparr>;
          s2 = (if length prefix > 1 then
                  (let parentPrefix = butlast prefix;
                       currentParentScore =
                         (case prefixPatterns s1 parentPrefix of None \<Rightarrow> 0 | Some v \<Rightarrow> v)
                   in if resultCount > 0 \<and> currentParentScore < 5
                      then s1\<lparr>prefixPatterns := (prefixPatterns s1)
                                 (parentPrefix \<mapsto> min 5 (currentParentScore + 1))\<rparr>
                      else s1)
                else s1)
      in if resultCount = 0 \<and> length prefix \<ge> 2
         then s2\<lparr>stats := (stats s2)\<lparr>blockedPrefixes := blockedPrefixes (stats s2) @ [prefix]\<rparr>\<rparr>
         else s2)"

definition shouldSkipPrefix :: "DiscoveryServiceV3 \<Rightarrow> string \<Rightarrow> bool" where
  "shouldSkipPrefix s prefix =
     (if length prefix \<le> 1 then False
      else if list_ex (\<lambda>blockedPrefix. startsWith prefix blockedPrefix) (blockedPrefixes (stats s))
           then True
      else if getPatternScore s prefix = 0 then True
      else list_all (\<lambda>i. case prefixPatterns s (take i prefix) of
                            None \<Rightarrow> False
                          | Some v \<Rightarrow> \<not> v > 0)
                    [1 ..< length prefix])"

definition isBlockedByParent :: "DiscoveryServiceV3 \<Rightarrow> string \<Rightarrow> bool" where
  "isBlockedByParent s prefix =
     list_ex (\<lambda>blocked. startsWith prefix blocked) (blockedPrefixes (stats s))"

subsection \<open>Child generation\<close>

text \<open>
  \<open>extractCommonPrefixes\<close> counts the one-character extensions of the current prefix
  seen in the names. The counting \<open>Map\<close> keeps insertion order, so it is an association
  list here; \<open>Array.prototype.sort\<close> is stable, as is \<open>sort_key\<close>.
\<close>

fun bumpEntry :: "string \<Rightarrow> (string \<times> nat) list \<Rightarrow> (string \<times> nat) list" where
  "bumpEntry k [] = [(k, 1)]"
| "bumpEntry k ((k', c) # rest) =
     (if k = k' then (k', c + 1) # rest else (k', c) # bumpEntry k rest)"

definition extractCommonPrefixes :: "string list \<Rightarrow> string \<Rightarrow> string list" where
  "extractCommonPrefixes names currentPrefix =
     (if names = [] then []
      else
        (let nextLetterFrequency =
               fold (\<lambda>name freq.
                       if length name > length currentPrefix
                       then bumpEntry (currentPrefix @ [name ! length currentPrefix]) freq
                       else freq)
                    names []
         in map fst (take 3 (sort_key (\<lambda>entry. - int (snd entry)) nextLetterFrequency))))"

definition commonNextLetters :: string where
  "commonNextLetters = ''aeijlmnorst''"

definition commonLetters :: string where
  "commonLetters = ''aeimnrst''"

definition generateOptimalNextPrefixes ::
  "DiscoveryServiceV3 \<Rightarrow> string \<Rightarrow> string list \<Rightarrow> DiscoveryServiceV3" where
  "generateOptimalNextPrefixes s prefix results =
     (if length results > 0 then
        (if length prefix < 3 then
           (let commonPrefixes = extractCommonPrefixes results prefix;
                q1 = fold (\<lambda>nextPrefix q.
                             if nextPrefix \<notin> set (exploredPrefixes (stats s)) \<and>
                                nextPrefix \<notin> set (skippedPrefixes (stats s)) \<and>
                                nextPrefix \<notin> set q \<and>
                                \<not> isBlockedByParent s nextPrefix
                             then q @ [nextPrefix] else q)
                          commonPrefixes (prefixQueue s);
                q2 = (if length commonPrefixes < 2 \<or> length prefix < 2 then
                        fold (\<lambda>char q.
                                let nextPrefix = prefix @ [char] in
                                if nextPrefix \<notin> set (exploredPrefixes (stats s)) \<and>
                                   nextPrefix \<notin> set (skippedPrefixes (stats s)) \<and>
                                   nextPrefix \<notin> set q \<and>
                                   nextPrefix \<notin> set commonPrefixes \<and>
                                   \<not> isBlockedByParent s nextPrefix
                                then q @ [nextPrefix] else q)
                             commonNextLetters q1
                      else q1)
            in s\<lparr>prefixQueue := q2\<rparr>)
         else s)
      else if length prefix \<le> 1 then
        s\<lparr>prefixQueue :=
            fold (\<lambda>char q.
                    let nextPrefix = prefix @ [char] in
                    if nextPrefix \<notin> set (exploredPrefixes (stats s)) \<and>
                       nextPrefix \<notin> set (skippedPrefixes (stats s)) \<and>
                       nextPrefix \<notin> set q
                    then q @ [nextPrefix] else q)
                 commonLetters (prefixQueue s)\<rparr>
      else s)"

subsection \<open>Placeholder results\<close>

definition nameSuffixes :: "string list" where
  "nameSuffixes =
     [''ames'', ''ohn'', ''ark'', ''ike'', ''ill'', ''ave'', ''ack'', ''eter'', ''yan'', ''evin'',
      ''ary'', ''ara'', ''isa'', ''rin'', ''mma'', ''arah'', ''nna'', ''kate'', ''ulie'', ''ophy'']"

text \<open>
  \<open>generateFakeNamesForPrefix\<close>. For the empty prefix \<open>charCodeAt(0)\<close> is \<open>NaN\<close>, the
  suffix read is \<open>undefined\<close>, and the concatenation yields the text \<open>undefined\<close>.
\<close>

definition generateFakeNamesForPrefix :: "DiscoveryServiceV3 \<Rightarrow> string \<Rightarrow> string list" where
  "generateFakeNamesForPrefix s prefix =
     (let suffixesToUse = (if length prefix > 2 then 3 else 6 :: nat);
          possibleNames =
            map (\<lambda>i. case prefix of
                       [] \<Rightarrow> ''undefined''
                     | c # _ \<Rightarrow>
                        (let suffix = nameSuffixes ! ((of_char c + i) mod length nameSuffixes)
                         in if length prefix > 1
                            then prefix @ drop (min (length suffix) (length prefix)) suffix
                            else prefix @ suffix))
                [0 ..< suffixesToUse];
          patternScore = getPatternScore s prefix;
          resultCount = min (int (length possibleNames)) (max 0 (patternScore + 1))
      in take (nat resultCount) possibleNames)"

subsection \<open>Result handling\<close>

text \<open>The body of \<open>names.forEach\<close> in \<open>handleResults\<close>, for one name.\<close>

definition noteName :: "string \<Rightarrow> DiscoveryServiceV3 \<Rightarrow> DiscoveryServiceV3" where
  "noteName name s =
     (let s1 = s\<lparr>nameFrequencyMap := (nameFrequencyMap s)
                  (name \<mapsto> (case nameFrequencyMap s name of None \<Rightarrow> 0 | Some c \<Rightarrow> c) + 1)\<rparr>
      in if name \<notin> set (uniqueNames (stats s1))
         then s1\<lparr>stats := (stats s1)\<lparr>uniqueNames := uniqueNames (stats s1) @ [name]\<rparr>\<rparr>
         else s1)"

definition handleResults ::
  "DiscoveryServiceV3 \<Rightarrow> string \<Rightarrow> string list \<Rightarrow> bool \<Rightarrow> DiscoveryServiceV3" where
  "handleResults s prefix names fromCache =
     (let s1 = (if \<not> fromCache
                then s\<lparr>stats := (stats s)\<lparr>successfulRequests := successfulRequests (stats s) + 1\<rparr>\<rparr>
                else s);
          s2 = s1\<lparr>stats := (stats s1)\<lparr>exploredPrefixes := exploredPrefixes (stats s1) @ [prefix]\<rparr>\<rparr>;
          s3 = s2\<lparr>stats := (stats s2)\<lparr>currentPrefixes :=
                                filter (\<lambda>p. p \<noteq> prefix) (currentPrefixes (stats s2))\<rparr>\<rparr>;
          s4 = fold noteName names s3;
          s5 = updatePatternScore s4 prefix (length names);
          s6 = generateOptimalNextPrefixes s5 prefix names
      in if successfulRequests (stats s6) > 0
         then s6\<lparr>stats := (stats s6)\<lparr>efficiency :=
                    of_nat (length (uniqueNames (stats s6))) / of_nat (successfulRequests (stats s6))\<rparr>\<rparr>
         else s6)"

subsection \<open>The prefix task executor\<close>

text \<open>The \<open>catch\<close> block of \<open>processPrefix\<close>.\<close>

definition processPrefix_catch :: "DiscoveryServiceV3 \<Rightarrow> string \<Rightarrow> DiscoveryServiceV3" where
  "processPrefix_catch s prefix =
     (let s1 = s\<lparr>stats := (stats s)\<lparr>failedRequests := failedRequests (stats s) + 1\<rparr>\<rparr>;
          fakeNames = generateFakeNamesForPrefix s1 prefix;
          s2 = s1\<lparr>cachedResults := (cachedResults s1)(prefix \<mapsto> fakeNames)\<rparr>
      in handleResults s2 prefix fakeNames False)"

text \<open>
  \<open>processPrefix\<close>. The request is numbered by the length of the ghost log and
  appended to it when \<open>fetch\<close> is called. An error thrown inside the \<open>try\<close> block,
  the one the code throws itself on a non-success status included, continues in the
  \<open>catch\<close> block.
\<close>

function processPrefix ::
  "env \<Rightarrow> DiscoveryServiceV3 \<Rightarrow> string \<Rightarrow> nat \<Rightarrow> DiscoveryServiceV3" where
  "processPrefix e s prefix retryCount =
     (if \<not> isRunning s then s
      else case cachedResults s prefix of
        Some cachedNames \<Rightarrow> handleResults s prefix cachedNames True
      | None \<Rightarrow>
         if shouldSkipPrefix s prefix then
           s\<lparr>stats := (stats s)\<lparr>skippedPrefixes := skippedPrefixes (stats s) @ [prefix],
                               currentPrefixes := filter (\<lambda>p. p \<noteq> prefix) (currentPrefixes (stats s))\<rparr>\<rparr>
         else
           (let s1 = s\<lparr>stats := (stats s)\<lparr>totalRequests := totalRequests (stats s) + 1\<rparr>,
                       requestTimestamps := requestTimestamps s @ [now e (length (fetchLog s))]\<rparr>
            in if simulationMode s1 then
                 (let names = generateFakeNamesForPrefix s1 prefix
                  in handleResults (s1\<lparr>cachedResults := (cachedResults s1)(prefix \<mapsto> names)\<rparr>)
                       prefix names False)
               else
                 (let s2 = s1\<lparr>fetchLog := fetchLog s1 @ [prefix]\<rparr>
                  in case fetch e (length (fetchLog s1)) prefix of
                       FetchRejected \<Rightarrow> processPrefix_catch s2 prefix
                     | Http status b \<Rightarrow>
                        if \<not> ok status then
                          (if status = 429 then
                             (let s3 = s2\<lparr>stats := (stats s2)\<lparr>rateLimited := rateLimited (stats s2) + 1\<rparr>\<rparr>
                              in if int retryCount < maxRetries (options s3) then
                                   processPrefix e (s3\<lparr>prefixQueue := prefix # prefixQueue s3\<rparr>)
                                     prefix (retryCount + 1)
                                 else
                                   processPrefix_catch
                                     (s3\<lparr>stats := (stats s3)\<lparr>failedRequests := failedRequests (stats s3) + 1\<rparr>\<rparr>)
                                     prefix)
                           else
                             processPrefix_catch
                               (s2\<lparr>stats := (stats s2)\<lparr>failedRequests := failedRequests (stats s2) + 1\<rparr>\<rparr>)
                               prefix)
                        else
                          (case b of
                             BadJson \<Rightarrow> processPrefix_catch s2 prefix
                           | Json r \<Rightarrow>
                              (let names = (case r of None \<Rightarrow> [] | Some results \<Rightarrow> results)
                               in handleResults (s2\<lparr>cachedResults := (cachedResults s2)(prefix \<mapsto> names)\<rparr>)
                                    prefix names False)))))"
  by pat_completeness auto
termination
  by (relation "measure (\<lambda>(e, s, prefix, retryCount). nat (maxRetries (options s) - int retryCount))")
     auto

declare processPrefix.simps [simp del]

subsection \<open>Selection and scheduling\<close>

definition rareCombinations :: "string list" where
  "rareCombinations = [''zx'', ''qz'', ''jx'', ''vq'', ''wx'']"

text \<open>\<open>String.prototype.includes\<close>.\<close>

definition includesStr :: "string \<Rightarrow> string \<Rightarrow> bool" where
  "includesStr str searchString =
     list_ex (\<lambda>i. take (length searchString) (drop i str) = searchString) [0 ..< Suc (length str)]"

definition hasRareCombination :: "string \<Rightarrow> bool" where
  "hasRareCombination prefix = list_ex (\<lambda>combo. includesStr prefix combo) rareCombinations"

definition calculatePrefixValue :: "DiscoveryServiceV3 \<Rightarrow> string \<Rightarrow> rat" where
  "calculatePrefixValue s prefix =
     (let score = of_int (getPatternScore s prefix);
          score1 = (case namePatterns s prefix of
                      None \<Rightarrow> score
                    | Some c \<Rightarrow> score + min 5 (of_nat c / 2));
          score2 = score1 - of_nat (length prefix) * (1 / 2);
          score3 = (if hasRareCombination prefix then score2 - 2 else score2)
      in max 0 score3)"

text \<open>
  \<open>selectOptimalPrefix\<close>. The comparator orders by descending value and, for equal
  values, by ascending length; \<open>Array.prototype.sort\<close> is stable. Two stable sorts,
  by the secondary key first, give that order.
\<close>

definition selectOptimalPrefix :: "DiscoveryServiceV3 \<Rightarrow> string option \<times> DiscoveryServiceV3" where
  "selectOptimalPrefix s =
     (if prefixQueue s = [] then (None, s)
      else
        (let s1 = (if mlEnabled (options s)
                   then s\<lparr>prefixQueue :=
                            sort_key (\<lambda>a. - calculatePrefixValue s a) (sort_key length (prefixQueue s))\<rparr>
                   else s)
         in case prefixQueue s1 of
              [] \<Rightarrow> (None, s1)
            | prefix # rest \<Rightarrow>
                (Some prefix,
                 s1\<lparr>prefixQueue := rest,
                    stats := (stats s1)\<lparr>currentPrefixes := currentPrefixes (stats s1) @ [prefix]\<rparr>\<rparr>)))"

definition pause :: "DiscoveryServiceV3 \<Rightarrow> DiscoveryServiceV3" where
  "pause s = s\<lparr>isPaused := True\<rparr>"

text \<open>\<open>resume\<close>, up to the call of \<open>processQueue\<close> that ends it.\<close>

definition resume :: "DiscoveryServiceV3 \<Rightarrow> DiscoveryServiceV3" where
  "resume s = (if \<not> isRunning s then s else s\<lparr>isPaused := False\<rparr>)"

text \<open>
  The bookkeeping of \<open>processQueue\<close> around one task: \<open>activeRequests++\<close> before
  \<open>processPrefix\<close> is called, and the \<open>finally\<close> handler after it has settled, which
  ends the run when nothing is active and the queue is empty.
\<close>

definition taskStarted :: "DiscoveryServiceV3 \<Rightarrow> DiscoveryServiceV3" where
  "taskStarted s = s\<lparr>activeRequests := activeRequests s + 1\<rparr>"

definition taskSettled :: "DiscoveryServiceV3 \<Rightarrow> DiscoveryServiceV3" where
  "taskSettled s =
     (let s1 = s\<lparr>activeRequests := activeRequests s - 1\<rparr>
      in if activeRequests s1 = 0 \<and> prefixQueue s1 = [] then
           (if isRunning s1 then s1\<lparr>isRunning := False\<rparr> else s1)
         else s1)"

text \<open>
  The states of one run: those reached from a given state by the methods of the class,
  in any order and any number of times, \<open>reset\<close> (which ends the run) and
  \<open>updateOptions\<close> apart. The scheduler \<open>processQueue\<close> is one such order: it
  computes the ceiling, selects a prefix, counts the task, and hands the prefix to
  \<open>processPrefix\<close>, which is taken here for any prefix and any retry count.
\<close>

inductive run :: "env \<Rightarrow> DiscoveryServiceV3 \<Rightarrow> DiscoveryServiceV3 \<Rightarrow> bool"
  for e :: env and s :: DiscoveryServiceV3 where
  run_init: "run e s s"
| run_ceiling: "run e s t \<Longrightarrow> run e s (snd (calculateOptimalConcurrency t))"
| run_select: "run e s t \<Longrightarrow> run e s (snd (selectOptimalPrefix t))"
| run_taskStarted: "run e s t \<Longrightarrow> run e s (taskStarted t)"
| run_process: "run e s t \<Longrightarrow> run e s (processPrefix e t prefix retryCount)"
| run_taskSettled: "run e s t \<Longrightarrow> run e s (taskSettled t)"
| run_pause: "run e s t \<Longrightarrow> run e s (pause t)"
| run_resume: "run e s t \<Longrightarrow> run e s (resume t)"
| run_stop: "run e s t \<Longrightarrow> run e s (stop t)"
| run_start: "run e s t \<Longrightarrow> run e s (start t)"
| run_simulation: "run e s t \<Longrightarrow> run e s (enableSimulationMode enabled t)"

subsection \<open>The prefix task executor between its awaits\<close>

text \<open>
  \<open>updateOptions\<close>: an option that is present replaces the stored one.
\<close>

definition updateOptions :: "PartialOptions \<Rightarrow> DiscoveryServiceV3 \<Rightarrow> DiscoveryServiceV3" where
  "updateOptions opts s =
     s\<lparr>options :=
         \<lparr>delayBetweenRequests =
            nullish (delayBetweenRequests_opt opts) (delayBetweenRequests (options s)),
          maxConcurrentRequests =
            nullish (maxConcurrentRequests_opt opts) (maxConcurrentRequests (options s)),
          maxRetries = nullish (maxRetries_opt opts) (maxRetries (options s)),
          initialPrefixes = nullish (initialPrefixes_opt opts) (initialPrefixes (options s)),
          mlEnabled = nullish (mlEnabled_opt opts) (mlEnabled (options s))\<rparr>\<rparr>"

text \<open>
  A call chain of \<open>processPrefix\<close> that is suspended at an await. \<open>AwaitFetch prefix
  retryCount k\<close>: it has sent request number \<open>k\<close> and waits for the answer (the await
  of \<open>fetch\<close> and, for a success status, the await of \<open>response.json()\<close> after it,
  between which the method changes no field). \<open>AwaitBackoff prefix retryCount\<close>: it
  was answered 429 and waits for the backoff timer.
\<close>

datatype task = AwaitFetch string nat nat | AwaitBackoff string nat

definition spawned :: "task option \<Rightarrow> task list" where
  "spawned t = (case t of None \<Rightarrow> [] | Some x \<Rightarrow> [x])"

text \<open>
  From the entry of \<open>processPrefix\<close> to the call of \<open>fetch\<close>, or to the end of the
  method when no request is sent. The result is the new state and the suspended chain,
  if any.
\<close>

definition processPrefix_enter ::
  "env \<Rightarrow> DiscoveryServiceV3 \<Rightarrow> string \<Rightarrow> nat \<Rightarrow> DiscoveryServiceV3 \<times> task option" where
  "processPrefix_enter e s prefix retryCount =
     (if \<not> isRunning s then (s, None)
      else case cachedResults s prefix of
        Some cachedNames \<Rightarrow> (handleResults s prefix cachedNames True, None)
      | None \<Rightarrow>
         if shouldSkipPrefix s prefix then
           (s\<lparr>stats := (stats s)\<lparr>skippedPrefixes := skippedPrefixes (stats s) @ [prefix],
                                currentPrefixes := filter (\<lambda>p. p \<noteq> prefix) (currentPrefixes (stats s))\<rparr>\<rparr>,
            None)
         else
           (let s1 = s\<lparr>stats := (stats s)\<lparr>totalRequests := totalRequests (stats s) + 1\<rparr>,
                       requestTimestamps := requestTimestamps s @ [now e (length (fetchLog s))]\<rparr>
            in if simulationMode s1 then
                 (let names = generateFakeNamesForPrefix s1 prefix
                  in (handleResults (s1\<lparr>cachedResults := (cachedResults s1)(prefix \<mapsto> names)\<rparr>)
                        prefix names False,
                      None))
               else
                 (s1\<lparr>fetchLog := fetchLog s1 @ [prefix]\<rparr>,
                  Some (AwaitFetch prefix retryCount (length (fetchLog s1))))))"

text \<open>
  From the answer to request \<open>k\<close> to the backoff timer, or to the end of the method.
\<close>

definition processPrefix_answered ::
  "env \<Rightarrow> DiscoveryServiceV3 \<Rightarrow> string \<Rightarrow> nat \<Rightarrow> nat \<Rightarrow> DiscoveryServiceV3 \<times> task option" where
  "processPrefix_answered e s prefix retryCount k =
     (case fetch e k prefix of
        FetchRejected \<Rightarrow> (processPrefix_catch s prefix, None)
      | Http status b \<Rightarrow>
         if \<not> ok status then
           (if status = 429 then
              (s\<lparr>stats := (stats s)\<lparr>rateLimited := rateLimited (stats s) + 1\<rparr>\<rparr>,
               Some (AwaitBackoff prefix retryCount))
            else
              (processPrefix_catch
                 (s\<lparr>stats := (stats s)\<lparr>failedRequests := failedRequests (stats s) + 1\<rparr>\<rparr>) prefix,
               None))
         else
           (case b of
              BadJson \<Rightarrow> (processPrefix_catch s prefix, None)
            | Json r \<Rightarrow>
               (let names = (case r of None \<Rightarrow> [] | Some results \<Rightarrow> results)
                in (handleResults (s\<lparr>cachedResults := (cachedResults s)(prefix \<mapsto> names)\<rparr>)
                      prefix names False,
                    None))))"

text \<open>
  From the end of the backoff: the retry, which puts the prefix back at the head of
  the queue and enters \<open>processPrefix\<close> again, or the failure once the retries are
  used up.
\<close>

definition processPrefix_resumed ::
  "env \<Rightarrow> DiscoveryServiceV3 \<Rightarrow> string \<Rightarrow> nat \<Rightarrow> DiscoveryServiceV3 \<times> task option" where
  "processPrefix_resumed e s prefix retryCount =
     (if int retryCount < maxRetries (options s) then
        processPrefix_enter e (s\<lparr>prefixQueue := prefix # prefixQueue s\<rparr>) prefix (retryCount + 1)
      else
        (processPrefix_catch
           (s\<lparr>stats := (stats s)\<lparr>failedRequests := failedRequests (stats s) + 1\<rparr>\<rparr>) prefix,
         None))"

text \<open>
  The states of one run with its call chains interleaved: a state of the service and
  the chains that are suspended. A step is the entry of a new chain (for any prefix), the
  arrival of the answer a chain waits for, the end of a backoff, or one of the other
  methods of the class, \<open>reset\<close> apart, which ends the run.
\<close>

inductive asyncRun ::
  "env \<Rightarrow> DiscoveryServiceV3 \<times> task list \<Rightarrow> DiscoveryServiceV3 \<times> task list \<Rightarrow> bool"
  for e :: env and c :: "DiscoveryServiceV3 \<times> task list" where
  async_init: "asyncRun e c c"
| async_enter:
    "asyncRun e c (t, ts) \<Longrightarrow>
     asyncRun e c (fst (processPrefix_enter e t prefix retryCount),
                   ts @ spawned (snd (processPrefix_enter e t prefix retryCount)))"
| async_answered:
    "asyncRun e c (t, ts) \<Longrightarrow> AwaitFetch prefix retryCount k \<in> set ts \<Longrightarrow>
     asyncRun e c (fst (processPrefix_answered e t prefix retryCount k),
                   remove1 (AwaitFetch prefix retryCount k) ts @
                   spawned (snd (processPrefix_answered e t prefix retryCount k)))"
| async_resumed:
    "asyncRun e c (t, ts) \<Longrightarrow> AwaitBackoff prefix retryCount \<in> set ts \<Longrightarrow>
     asyncRun e c (fst (processPrefix_resumed e t prefix retryCount),
                   remove1 (AwaitBackoff prefix retryCount) ts @
                   spawned (snd (processPrefix_resumed e t prefix retryCount)))"
| async_ceiling: "asyncRun e c (t, ts) \<Longrightarrow> asyncRun e c (snd (calculateOptimalConcurrency t), ts)"
| async_select: "asyncRun e c (t, ts) \<Longrightarrow> asyncRun e c (snd (selectOptimalPrefix t), ts)"
| async_taskStarted: "asyncRun e c (t, ts) \<Longrightarrow> asyncRun e c (taskStarted t, ts)"
| async_taskSettled: "asyncRun e c (t, ts) \<Longrightarrow> asyncRun e c (taskSettled t, ts)"
| async_pause: "asyncRun e c (t, ts) \<Longrightarrow> asyncRun e c (pause t, ts)"
| async_resume: "asyncRun e c (t, ts) \<Longrightarrow> asyncRun e c (resume t, ts)"
| async_stop: "asyncRun e c (t, ts) \<Longrightarrow> asyncRun e c (stop t, ts)"
| async_start: "asyncRun e c (t, ts) \<Longrightarrow> asyncRun e c (start t, ts)"
| async_simulation: "asyncRun e c (t, ts) \<Longrightarrow> asyncRun e c (enableSimulationMode enabled t, ts)"
| async_options: "asyncRun e c (t, ts) \<Longrightarrow> asyncRun e c (updateOptions opts t, ts)"

text \<open>
  The fields that the scheduling steps of a run leave alone: two states are related when
  they agree on them.
\<close>

definition sameCore :: "DiscoveryServiceV3 \<Rightarrow> DiscoveryServiceV3 \<Rightarrow> bool" where
  "sameCore t u \<longleftrightarrow>
     options u = options t \<and> cachedResults u = cachedResults t \<and> fetchLog u = fetchLog t \<and>
     blockedPrefixes (stats u) = blockedPrefixes (stats t) \<and>
     rateLimited (stats u) = rateLimited (stats t) \<and>
     successfulRequests (stats u) = successfulRequests (stats t) \<and>
     uniqueNames (stats u) = uniqueNames (stats t) \<and>
     efficiency (stats u) = efficiency (stats t)"

subsection \<open>Intermediate states of \<open>processPrefix\<close>\<close>

text \<open>
  Names for the states \<open>processPrefix\<close> passes through, used to state what it does.
  \<open>requestCounted\<close>: the request has been counted and time-stamped.
  \<open>requestIssued\<close>: it has also been handed to \<open>fetch\<close>. \<open>rateLimitedRetry\<close>: the
  answer was a 429 and the prefix has been put back at the head of the queue, just before
  \<open>processPrefix\<close> calls itself.
\<close>

definition requestCounted :: "env \<Rightarrow> DiscoveryServiceV3 \<Rightarrow> DiscoveryServiceV3" where
  "requestCounted e s =
     s\<lparr>stats := (stats s)\<lparr>totalRequests := totalRequests (stats s) + 1\<rparr>,
       requestTimestamps := requestTimestamps s @ [now e (length (fetchLog s))]\<rparr>"

definition requestIssued :: "env \<Rightarrow> DiscoveryServiceV3 \<Rightarrow> string \<Rightarrow> DiscoveryServiceV3" where
  "requestIssued e s prefix = (requestCounted e s)\<lparr>fetchLog := fetchLog s @ [prefix]\<rparr>"

definition rateLimitedRetry :: "env \<Rightarrow> DiscoveryServiceV3 \<Rightarrow> string \<Rightarrow> DiscoveryServiceV3" where
  "rateLimitedRetry e s prefix =
     (requestIssued e s prefix)
       \<lparr>stats := (stats (requestIssued e s prefix))
                   \<lparr>rateLimited := rateLimited (stats (requestIssued e s prefix)) + 1\<rparr>,
        prefixQueue := prefix # prefixQueue s\<rparr>"

subsection \<open>Fixtures\<close>

text \<open>The constructor called without an argument: every option takes its default.\<close>

definition noOptions :: PartialOptions where
  "noOptions =
     \<lparr>delayBetweenRequests_opt = None, maxConcurrentRequests_opt = None,
      maxRetries_opt = None, initialPrefixes_opt = None, mlEnabled_opt = None\<rparr>"

text \<open>A service constructed with the default options and started.\<close>

definition started :: DiscoveryServiceV3 where
  "started = start (new_DiscoveryServiceV3 noOptions)"

text \<open>
  A server that gives the listed answers to the successive requests, whatever the
  prefix, and cannot be reached afterwards.
\<close>

definition answers :: "response list \<Rightarrow> env" where
  "answers rs =
     \<lparr>fetch = (\<lambda>k prefix. if k < length rs then rs ! k else FetchRejected), now = (\<lambda>k. 0)\<rparr>"

text \<open>
  A run in which a prefix is cached before its parent is blocked. The service is
  constructed with the initial prefixes \<open>jo\<close> and \<open>joh\<close> and started. The server
  answers the first request with 429, the second with the single name \<open>john\<close>, the
  third with no results. The task for \<open>joh\<close> completes first (rate-limited once,
  then one result), the task for \<open>jo\<close> after it (no results).
\<close>

definition johnService :: DiscoveryServiceV3 where
  "johnService =
     start (new_DiscoveryServiceV3 (noOptions\<lparr>initialPrefixes_opt := Some [''jo'', ''joh'']\<rparr>))"

definition johnServer :: env where
  "johnServer = answers [Http 429 BadJson, Http 200 (Json (Some [''john''])), Http 200 (Json (Some []))]"

definition afterJoh :: DiscoveryServiceV3 where
  "afterJoh = processPrefix johnServer johnService ''joh'' 0"

definition afterJo :: DiscoveryServiceV3 where
  "afterJo = processPrefix johnServer afterJoh ''jo'' 0"

section \<open>Properties\<close>

subsection \<open>Auxiliary facts\<close>

lemma butlast_neq:
  assumes "length prefix > 1"
  shows "butlast prefix \<noteq> prefix \<and> prefix \<noteq> butlast prefix"
proof -
  have "butlast prefix \<noteq> prefix"
  proof
    assume e: "butlast prefix = prefix"
    have "length (butlast prefix) = length prefix" by (simp only: e)
    then have "length prefix - 1 = length prefix" by simp
    with assms show False by simp
  qed
  then show ?thesis by auto
qed

lemma butlast_neq_nonempty:
  assumes "prefix \<noteq> []"
  shows "butlast prefix \<noteq> prefix \<and> prefix \<noteq> butlast prefix"
proof -
  have "butlast prefix \<noteq> prefix"
  proof
    assume e: "butlast prefix = prefix"
    have "length (butlast prefix) = length prefix" by (simp only: e)
    then have "length prefix - 1 = length prefix" by simp
    with assms show False by (cases prefix) simp_all
  qed
  then show ?thesis by auto
qed

lemma new_fields [simp]:
  "stats (new_DiscoveryServiceV3 opts) = emptyStats"
  "isRunning (new_DiscoveryServiceV3 opts) = False"
  "isPaused (new_DiscoveryServiceV3 opts) = False"
  "prefixQueue (new_DiscoveryServiceV3 opts) = []"
  "activeRequests (new_DiscoveryServiceV3 opts) = 0"
  "prefixPatterns (new_DiscoveryServiceV3 opts) = Map.empty"
  "nameFrequencyMap (new_DiscoveryServiceV3 opts) = Map.empty"
  "cachedResults (new_DiscoveryServiceV3 opts) = Map.empty"
  "requestTimestamps (new_DiscoveryServiceV3 opts) = []"
  "simulationMode (new_DiscoveryServiceV3 opts) = False"
  "fetchLog (new_DiscoveryServiceV3 opts) = []"
  by (simp_all add: new_DiscoveryServiceV3_def initializeCommonNames_def)

lemma new_options [simp]:
  "options (new_DiscoveryServiceV3 noOptions) =
     \<lparr>delayBetweenRequests = 250, maxConcurrentRequests = 4, maxRetries = 3,
      initialPrefixes = highValuePrefixes, mlEnabled = True\<rparr>"
  by (simp add: new_DiscoveryServiceV3_def initializeCommonNames_def noOptions_def nullish_def)

lemma started_fields [simp]:
  "stats started = emptyStats"
  "isRunning started = True"
  "prefixQueue started = highValuePrefixes"
  "prefixPatterns started = Map.empty"
  "nameFrequencyMap started = Map.empty"
  "cachedResults started = Map.empty"
  "requestTimestamps started = []"
  "simulationMode started = False"
  "fetchLog started = []"
  "namePatterns started = namePatterns (new_DiscoveryServiceV3 noOptions)"
  "options started =
     \<lparr>delayBetweenRequests = 250, maxConcurrentRequests = 4, maxRetries = 3,
      initialPrefixes = highValuePrefixes, mlEnabled = True\<rparr>"
  by (simp_all add: started_def start_def)

lemma emptyStats_fields [simp]:
  "totalRequests emptyStats = 0"
  "successfulRequests emptyStats = 0"
  "failedRequests emptyStats = 0"
  "uniqueNames emptyStats = []"
  "rateLimited emptyStats = 0"
  "exploredPrefixes emptyStats = []"
  "skippedPrefixes emptyStats = []"
  "currentPrefixes emptyStats = []"
  "blockedPrefixes emptyStats = []"
  "efficiency emptyStats = 0"
  by (simp_all add: emptyStats_def)

lemma generateOptimalNextPrefixes_fields [simp]:
  "stats (generateOptimalNextPrefixes s prefix results) = stats s"
  "options (generateOptimalNextPrefixes s prefix results) = options s"
  "isRunning (generateOptimalNextPrefixes s prefix results) = isRunning s"
  "prefixPatterns (generateOptimalNextPrefixes s prefix results) = prefixPatterns s"
  "nameFrequencyMap (generateOptimalNextPrefixes s prefix results) = nameFrequencyMap s"
  "cachedResults (generateOptimalNextPrefixes s prefix results) = cachedResults s"
  "namePatterns (generateOptimalNextPrefixes s prefix results) = namePatterns s"
  "requestTimestamps (generateOptimalNextPrefixes s prefix results) = requestTimestamps s"
  "simulationMode (generateOptimalNextPrefixes s prefix results) = simulationMode s"
  "fetchLog (generateOptimalNextPrefixes s prefix results) = fetchLog s"
  by (simp_all add: generateOptimalNextPrefixes_def Let_def)

lemma updatePatternScore_fields [simp]:
  "options (updatePatternScore s prefix n) = options s"
  "isRunning (updatePatternScore s prefix n) = isRunning s"
  "prefixQueue (updatePatternScore s prefix n) = prefixQueue s"
  "nameFrequencyMap (updatePatternScore s prefix n) = nameFrequencyMap s"
  "cachedResults (updatePatternScore s prefix n) = cachedResults s"
  "namePatterns (updatePatternScore s prefix n) = namePatterns s"
  "requestTimestamps (updatePatternScore s prefix n) = requestTimestamps s"
  "simulationMode (updatePatternScore s prefix n) = simulationMode s"
  "fetchLog (updatePatternScore s prefix n) = fetchLog s"
  by (simp_all add: updatePatternScore_def Let_def)

lemma updatePatternScore_stats [simp]:
  "totalRequests (stats (updatePatternScore s prefix n)) = totalRequests (stats s)"
  "successfulRequests (stats (updatePatternScore s prefix n)) = successfulRequests (stats s)"
  "failedRequests (stats (updatePatternScore s prefix n)) = failedRequests (stats s)"
  "uniqueNames (stats (updatePatternScore s prefix n)) = uniqueNames (stats s)"
  "rateLimited (stats (updatePatternScore s prefix n)) = rateLimited (stats s)"
  "exploredPrefixes (stats (updatePatternScore s prefix n)) = exploredPrefixes (stats s)"
  "skippedPrefixes (stats (updatePatternScore s prefix n)) = skippedPrefixes (stats s)"
  "currentPrefixes (stats (updatePatternScore s prefix n)) = currentPrefixes (stats s)"
  "efficiency (stats (updatePatternScore s prefix n)) = efficiency (stats s)"
  "blockedPrefixes (stats (updatePatternScore s prefix n)) =
     (if n = 0 \<and> 2 \<le> length prefix then blockedPrefixes (stats s) @ [prefix]
      else blockedPrefixes (stats s))"
  by (simp_all add: updatePatternScore_def Let_def)

lemma noteName_fields [simp]:
  "options (noteName name s) = options s"
  "isRunning (noteName name s) = isRunning s"
  "prefixQueue (noteName name s) = prefixQueue s"
  "prefixPatterns (noteName name s) = prefixPatterns s"
  "cachedResults (noteName name s) = cachedResults s"
  "namePatterns (noteName name s) = namePatterns s"
  "requestTimestamps (noteName name s) = requestTimestamps s"
  "simulationMode (noteName name s) = simulationMode s"
  "fetchLog (noteName name s) = fetchLog s"
  by (simp_all add: noteName_def Let_def)

lemma noteName_stats [simp]:
  "totalRequests (stats (noteName name s)) = totalRequests (stats s)"
  "successfulRequests (stats (noteName name s)) = successfulRequests (stats s)"
  "failedRequests (stats (noteName name s)) = failedRequests (stats s)"
  "rateLimited (stats (noteName name s)) = rateLimited (stats s)"
  "exploredPrefixes (stats (noteName name s)) = exploredPrefixes (stats s)"
  "skippedPrefixes (stats (noteName name s)) = skippedPrefixes (stats s)"
  "currentPrefixes (stats (noteName name s)) = currentPrefixes (stats s)"
  "blockedPrefixes (stats (noteName name s)) = blockedPrefixes (stats s)"
  "efficiency (stats (noteName name s)) = efficiency (stats s)"
  "set (uniqueNames (stats (noteName name s))) = insert name (set (uniqueNames (stats s)))"
  by (auto simp add: noteName_def Let_def)

lemma fold_noteName_fields [simp]:
  "options (fold noteName names s) = options s"
  "isRunning (fold noteName names s) = isRunning s"
  "prefixQueue (fold noteName names s) = prefixQueue s"
  "prefixPatterns (fold noteName names s) = prefixPatterns s"
  "cachedResults (fold noteName names s) = cachedResults s"
  "namePatterns (fold noteName names s) = namePatterns s"
  "requestTimestamps (fold noteName names s) = requestTimestamps s"
  "simulationMode (fold noteName names s) = simulationMode s"
  "fetchLog (fold noteName names s) = fetchLog s"
  by (induction names arbitrary: s; simp)+

lemma fold_noteName_stats [simp]:
  "totalRequests (stats (fold noteName names s)) = totalRequests (stats s)"
  "successfulRequests (stats (fold noteName names s)) = successfulRequests (stats s)"
  "failedRequests (stats (fold noteName names s)) = failedRequests (stats s)"
  "rateLimited (stats (fold noteName names s)) = rateLimited (stats s)"
  "exploredPrefixes (stats (fold noteName names s)) = exploredPrefixes (stats s)"
  "skippedPrefixes (stats (fold noteName names s)) = skippedPrefixes (stats s)"
  "currentPrefixes (stats (fold noteName names s)) = currentPrefixes (stats s)"
  "blockedPrefixes (stats (fold noteName names s)) = blockedPrefixes (stats s)"
  "efficiency (stats (fold noteName names s)) = efficiency (stats s)"
  by (induction names arbitrary: s; simp)+

lemma fold_noteName_uniqueNames [simp]:
  "set (uniqueNames (stats (fold noteName names s))) = set (uniqueNames (stats s)) \<union> set names"
  by (induction names arbitrary: s) auto


lemma handleResults_fields [simp]:
  "options (handleResults s prefix names fromCache) = options s"
  "isRunning (handleResults s prefix names fromCache) = isRunning s"
  "cachedResults (handleResults s prefix names fromCache) = cachedResults s"
  "namePatterns (handleResults s prefix names fromCache) = namePatterns s"
  "requestTimestamps (handleResults s prefix names fromCache) = requestTimestamps s"
  "simulationMode (handleResults s prefix names fromCache) = simulationMode s"
  "fetchLog (handleResults s prefix names fromCache) = fetchLog s"
  by (simp_all add: handleResults_def Let_def)

lemma handleResults_prefixPatterns:
  "prefixPatterns (handleResults s prefix names fromCache) =
     prefixPatterns (updatePatternScore s prefix (length names))"
  by (simp add: handleResults_def Let_def updatePatternScore_def)

lemma handleResults_stats [simp]:
  "totalRequests (stats (handleResults s prefix names fromCache)) = totalRequests (stats s)"
  "successfulRequests (stats (handleResults s prefix names fromCache)) =
     (if fromCache then successfulRequests (stats s) else successfulRequests (stats s) + 1)"
  "failedRequests (stats (handleResults s prefix names fromCache)) = failedRequests (stats s)"
  "rateLimited (stats (handleResults s prefix names fromCache)) = rateLimited (stats s)"
  "exploredPrefixes (stats (handleResults s prefix names fromCache)) =
     exploredPrefixes (stats s) @ [prefix]"
  "skippedPrefixes (stats (handleResults s prefix names fromCache)) = skippedPrefixes (stats s)"
  "currentPrefixes (stats (handleResults s prefix names fromCache)) =
     filter (\<lambda>p. p \<noteq> prefix) (currentPrefixes (stats s))"
  "blockedPrefixes (stats (handleResults s prefix names fromCache)) =
     (if names = [] \<and> 2 \<le> length prefix then blockedPrefixes (stats s) @ [prefix]
      else blockedPrefixes (stats s))"
  "set (uniqueNames (stats (handleResults s prefix names fromCache))) =
     set (uniqueNames (stats s)) \<union> set names"
  by (simp_all add: handleResults_def Let_def)

lemma handleResults_efficiency:
  "efficiency (stats (handleResults s prefix names fromCache)) =
     (if successfulRequests (stats (handleResults s prefix names fromCache)) > 0
      then of_nat (length (uniqueNames (stats (handleResults s prefix names fromCache)))) /
           of_nat (successfulRequests (stats (handleResults s prefix names fromCache)))
      else efficiency (stats s))"
  by (simp add: handleResults_def Let_def)

lemma processPrefix_catch_fields [simp]:
  "options (processPrefix_catch s prefix) = options s"
  "isRunning (processPrefix_catch s prefix) = isRunning s"
  "namePatterns (processPrefix_catch s prefix) = namePatterns s"
  "requestTimestamps (processPrefix_catch s prefix) = requestTimestamps s"
  "simulationMode (processPrefix_catch s prefix) = simulationMode s"
  "fetchLog (processPrefix_catch s prefix) = fetchLog s"
  by (simp_all add: processPrefix_catch_def Let_def)

lemma processPrefix_catch_cached:
  "cachedResults (processPrefix_catch s prefix) =
     (cachedResults s)(prefix \<mapsto>
        generateFakeNamesForPrefix
          (s\<lparr>stats := (stats s)\<lparr>failedRequests := failedRequests (stats s) + 1\<rparr>\<rparr>) prefix)"
  by (simp add: processPrefix_catch_def Let_def)

lemma processPrefix_catch_stats [simp]:
  "totalRequests (stats (processPrefix_catch s prefix)) = totalRequests (stats s)"
  "successfulRequests (stats (processPrefix_catch s prefix)) = successfulRequests (stats s) + 1"
  "failedRequests (stats (processPrefix_catch s prefix)) = failedRequests (stats s) + 1"
  "rateLimited (stats (processPrefix_catch s prefix)) = rateLimited (stats s)"
  "exploredPrefixes (stats (processPrefix_catch s prefix)) = exploredPrefixes (stats s) @ [prefix]"
  "skippedPrefixes (stats (processPrefix_catch s prefix)) = skippedPrefixes (stats s)"
  by (simp_all add: processPrefix_catch_def Let_def)


lemma shouldSkipPrefix_cong:
  "blockedPrefixes (stats t) = blockedPrefixes (stats s) \<Longrightarrow> prefixPatterns t = prefixPatterns s \<Longrightarrow>
   namePatterns t = namePatterns s \<Longrightarrow> shouldSkipPrefix t prefix = shouldSkipPrefix s prefix"
  unfolding shouldSkipPrefix_def getPatternScore_def by (simp only:)

lemma requestIssued_fields [simp]:
  "options (requestIssued e s prefix) = options s"
  "isRunning (requestIssued e s prefix) = isRunning s"
  "prefixQueue (requestIssued e s prefix) = prefixQueue s"
  "prefixPatterns (requestIssued e s prefix) = prefixPatterns s"
  "cachedResults (requestIssued e s prefix) = cachedResults s"
  "namePatterns (requestIssued e s prefix) = namePatterns s"
  "simulationMode (requestIssued e s prefix) = simulationMode s"
  "fetchLog (requestIssued e s prefix) = fetchLog s @ [prefix]"
  "successfulRequests (stats (requestIssued e s prefix)) = successfulRequests (stats s)"
  "failedRequests (stats (requestIssued e s prefix)) = failedRequests (stats s)"
  "rateLimited (stats (requestIssued e s prefix)) = rateLimited (stats s)"
  "totalRequests (stats (requestIssued e s prefix)) = totalRequests (stats s) + 1"
  "blockedPrefixes (stats (requestIssued e s prefix)) = blockedPrefixes (stats s)"
  "skippedPrefixes (stats (requestIssued e s prefix)) = skippedPrefixes (stats s)"
  "exploredPrefixes (stats (requestIssued e s prefix)) = exploredPrefixes (stats s)"
  "uniqueNames (stats (requestIssued e s prefix)) = uniqueNames (stats s)"
  "efficiency (stats (requestIssued e s prefix)) = efficiency (stats s)"
  by (simp_all add: requestIssued_def requestCounted_def)

lemma rateLimitedRetry_fields [simp]:
  "options (rateLimitedRetry e s prefix) = options s"
  "isRunning (rateLimitedRetry e s prefix) = isRunning s"
  "prefixQueue (rateLimitedRetry e s prefix) = prefix # prefixQueue s"
  "prefixPatterns (rateLimitedRetry e s prefix) = prefixPatterns s"
  "cachedResults (rateLimitedRetry e s prefix) = cachedResults s"
  "namePatterns (rateLimitedRetry e s prefix) = namePatterns s"
  "simulationMode (rateLimitedRetry e s prefix) = simulationMode s"
  "fetchLog (rateLimitedRetry e s prefix) = fetchLog s @ [prefix]"
  "successfulRequests (stats (rateLimitedRetry e s prefix)) = successfulRequests (stats s)"
  "failedRequests (stats (rateLimitedRetry e s prefix)) = failedRequests (stats s)"
  "rateLimited (stats (rateLimitedRetry e s prefix)) = rateLimited (stats s) + 1"
  "totalRequests (stats (rateLimitedRetry e s prefix)) = totalRequests (stats s) + 1"
  "blockedPrefixes (stats (rateLimitedRetry e s prefix)) = blockedPrefixes (stats s)"
  "skippedPrefixes (stats (rateLimitedRetry e s prefix)) = skippedPrefixes (stats s)"
  "exploredPrefixes (stats (rateLimitedRetry e s prefix)) = exploredPrefixes (stats s)"
  "uniqueNames (stats (rateLimitedRetry e s prefix)) = uniqueNames (stats s)"
  "efficiency (stats (rateLimitedRetry e s prefix)) = efficiency (stats s)"
  by (simp_all add: rateLimitedRetry_def requestIssued_def requestCounted_def)

lemma shouldSkipPrefix_rateLimitedRetry [simp]:
  "shouldSkipPrefix (rateLimitedRetry e s prefix) q = shouldSkipPrefix s q"
  by (rule shouldSkipPrefix_cong) simp_all

text \<open>The branches of \<open>processPrefix\<close>, one lemma each.\<close>

lemma processPrefix_notRunning:
  "\<not> isRunning s \<Longrightarrow> processPrefix e s prefix retryCount = s"
  by (subst processPrefix.simps) simp

lemma processPrefix_cached:
  "isRunning s \<Longrightarrow> cachedResults s prefix = Some names \<Longrightarrow>
   processPrefix e s prefix retryCount = handleResults s prefix names True"
  by (subst processPrefix.simps) simp

lemma processPrefix_skipped:
  "isRunning s \<Longrightarrow> cachedResults s prefix = None \<Longrightarrow> shouldSkipPrefix s prefix \<Longrightarrow>
   processPrefix e s prefix retryCount =
     s\<lparr>stats := (stats s)\<lparr>skippedPrefixes := skippedPrefixes (stats s) @ [prefix],
                         currentPrefixes := filter (\<lambda>p. p \<noteq> prefix) (currentPrefixes (stats s))\<rparr>\<rparr>"
  by (subst processPrefix.simps) simp

lemma processPrefix_retry:
  "isRunning s \<Longrightarrow> cachedResults s prefix = None \<Longrightarrow> \<not> shouldSkipPrefix s prefix \<Longrightarrow>
   \<not> simulationMode s \<Longrightarrow> fetch e (length (fetchLog s)) prefix = Http 429 b \<Longrightarrow>
   int retryCount < maxRetries (options s) \<Longrightarrow>
   processPrefix e s prefix retryCount =
     processPrefix e (rateLimitedRetry e s prefix) prefix (Suc retryCount)"
  by (subst processPrefix.simps) (simp add: Let_def ok_def rateLimitedRetry_def requestIssued_def requestCounted_def)

lemma processPrefix_exhausted:
  "isRunning s \<Longrightarrow> cachedResults s prefix = None \<Longrightarrow> \<not> shouldSkipPrefix s prefix \<Longrightarrow>
   \<not> simulationMode s \<Longrightarrow> fetch e (length (fetchLog s)) prefix = Http 429 b \<Longrightarrow>
   \<not> int retryCount < maxRetries (options s) \<Longrightarrow>
   processPrefix e s prefix retryCount =
     processPrefix_catch
       ((requestIssued e s prefix)
          \<lparr>stats := (stats (requestIssued e s prefix))
                      \<lparr>rateLimited := rateLimited (stats s) + 1,
                       failedRequests := failedRequests (stats s) + 1\<rparr>\<rparr>) prefix"
  by (subst processPrefix.simps) (simp add: Let_def ok_def requestIssued_def requestCounted_def)

lemma processPrefix_status:
  "isRunning s \<Longrightarrow> cachedResults s prefix = None \<Longrightarrow> \<not> shouldSkipPrefix s prefix \<Longrightarrow>
   \<not> simulationMode s \<Longrightarrow> fetch e (length (fetchLog s)) prefix = Http status b \<Longrightarrow>
   \<not> ok status \<Longrightarrow> status \<noteq> 429 \<Longrightarrow>
   processPrefix e s prefix retryCount =
     processPrefix_catch
       ((requestIssued e s prefix)
          \<lparr>stats := (stats (requestIssued e s prefix))
                      \<lparr>failedRequests := failedRequests (stats s) + 1\<rparr>\<rparr>) prefix"
  by (subst processPrefix.simps) (simp add: Let_def requestIssued_def requestCounted_def)

lemma processPrefix_thrown:
  "isRunning s \<Longrightarrow> cachedResults s prefix = None \<Longrightarrow> \<not> shouldSkipPrefix s prefix \<Longrightarrow>
   \<not> simulationMode s \<Longrightarrow>
   fetch e (length (fetchLog s)) prefix = FetchRejected \<or>
   (\<exists>status. ok status \<and> fetch e (length (fetchLog s)) prefix = Http status BadJson) \<Longrightarrow>
   processPrefix e s prefix retryCount = processPrefix_catch (requestIssued e s prefix) prefix"
  by (subst processPrefix.simps) (auto simp add: Let_def requestIssued_def requestCounted_def)

lemma processPrefix_ok:
  "isRunning s \<Longrightarrow> cachedResults s prefix = None \<Longrightarrow> \<not> shouldSkipPrefix s prefix \<Longrightarrow>
   \<not> simulationMode s \<Longrightarrow> fetch e (length (fetchLog s)) prefix = Http status (Json r) \<Longrightarrow>
   ok status \<Longrightarrow>
   processPrefix e s prefix retryCount =
     handleResults
       ((requestIssued e s prefix)
          \<lparr>cachedResults := (cachedResults s)(prefix \<mapsto> (case r of None \<Rightarrow> [] | Some results \<Rightarrow> results))\<rparr>)
       prefix (case r of None \<Rightarrow> [] | Some results \<Rightarrow> results) False"
  by (subst processPrefix.simps) (simp add: Let_def requestIssued_def requestCounted_def)

lemma requestCounted_fields [simp]:
  "options (requestCounted e s) = options s"
  "isRunning (requestCounted e s) = isRunning s"
  "prefixQueue (requestCounted e s) = prefixQueue s"
  "prefixPatterns (requestCounted e s) = prefixPatterns s"
  "cachedResults (requestCounted e s) = cachedResults s"
  "namePatterns (requestCounted e s) = namePatterns s"
  "simulationMode (requestCounted e s) = simulationMode s"
  "fetchLog (requestCounted e s) = fetchLog s"
  "successfulRequests (stats (requestCounted e s)) = successfulRequests (stats s)"
  "failedRequests (stats (requestCounted e s)) = failedRequests (stats s)"
  "rateLimited (stats (requestCounted e s)) = rateLimited (stats s)"
  "totalRequests (stats (requestCounted e s)) = totalRequests (stats s) + 1"
  "blockedPrefixes (stats (requestCounted e s)) = blockedPrefixes (stats s)"
  "skippedPrefixes (stats (requestCounted e s)) = skippedPrefixes (stats s)"
  "exploredPrefixes (stats (requestCounted e s)) = exploredPrefixes (stats s)"
  "uniqueNames (stats (requestCounted e s)) = uniqueNames (stats s)"
  "efficiency (stats (requestCounted e s)) = efficiency (stats s)"
  by (simp_all add: requestCounted_def)

lemma processPrefix_simulated:
  "isRunning s \<Longrightarrow> cachedResults s prefix = None \<Longrightarrow> \<not> shouldSkipPrefix s prefix \<Longrightarrow>
   simulationMode s \<Longrightarrow>
   processPrefix e s prefix retryCount =
     handleResults
       ((requestCounted e s)
          \<lparr>cachedResults := (cachedResults s)
             (prefix \<mapsto> generateFakeNamesForPrefix (requestCounted e s) prefix)\<rparr>)
       prefix (generateFakeNamesForPrefix (requestCounted e s) prefix) False"
  by (subst processPrefix.simps) (simp add: Let_def requestCounted_def)

text \<open>Case analysis and induction over the retries of \<open>processPrefix\<close> in one rule.\<close>

lemma processPrefix_cases_induct
  [case_names notRunning cached skipped simulated retry exhausted status thrown ok]:
  fixes Q :: "DiscoveryServiceV3 \<Rightarrow> nat \<Rightarrow> DiscoveryServiceV3 \<Rightarrow> bool"
  assumes notRunning: "\<And>s r. \<not> isRunning s \<Longrightarrow> Q s r s"
    and cached: "\<And>s r names. isRunning s \<Longrightarrow> cachedResults s prefix = Some names \<Longrightarrow>
          Q s r (handleResults s prefix names True)"
    and skipped: "\<And>s r. isRunning s \<Longrightarrow> cachedResults s prefix = None \<Longrightarrow>
          shouldSkipPrefix s prefix \<Longrightarrow>
          Q s r (s\<lparr>stats := (stats s)\<lparr>skippedPrefixes := skippedPrefixes (stats s) @ [prefix],
                         currentPrefixes := filter (\<lambda>p. p \<noteq> prefix) (currentPrefixes (stats s))\<rparr>\<rparr>)"
    and simulated: "\<And>s r. isRunning s \<Longrightarrow> cachedResults s prefix = None \<Longrightarrow>
          \<not> shouldSkipPrefix s prefix \<Longrightarrow> simulationMode s \<Longrightarrow>
          Q s r (handleResults
                  ((requestCounted e s)
                     \<lparr>cachedResults := (cachedResults s)
                        (prefix \<mapsto> generateFakeNamesForPrefix (requestCounted e s) prefix)\<rparr>)
                  prefix (generateFakeNamesForPrefix (requestCounted e s) prefix) False)"
    and retry: "\<And>s r b. isRunning s \<Longrightarrow> cachedResults s prefix = None \<Longrightarrow>
          \<not> shouldSkipPrefix s prefix \<Longrightarrow> \<not> simulationMode s \<Longrightarrow>
          fetch e (length (fetchLog s)) prefix = Http 429 b \<Longrightarrow>
          int r < maxRetries (options s) \<Longrightarrow>
          Q (rateLimitedRetry e s prefix) (Suc r)
            (processPrefix e (rateLimitedRetry e s prefix) prefix (Suc r)) \<Longrightarrow>
          Q s r (processPrefix e (rateLimitedRetry e s prefix) prefix (Suc r))"
    and exhausted: "\<And>s r b. isRunning s \<Longrightarrow> cachedResults s prefix = None \<Longrightarrow>
          \<not> shouldSkipPrefix s prefix \<Longrightarrow> \<not> simulationMode s \<Longrightarrow>
          fetch e (length (fetchLog s)) prefix = Http 429 b \<Longrightarrow>
          \<not> int r < maxRetries (options s) \<Longrightarrow>
          Q s r (processPrefix_catch
                  ((requestIssued e s prefix)
                     \<lparr>stats := (stats (requestIssued e s prefix))
                                 \<lparr>rateLimited := rateLimited (stats s) + 1,
                                  failedRequests := failedRequests (stats s) + 1\<rparr>\<rparr>) prefix)"
    and status: "\<And>s r status b. isRunning s \<Longrightarrow> cachedResults s prefix = None \<Longrightarrow>
          \<not> shouldSkipPrefix s prefix \<Longrightarrow> \<not> simulationMode s \<Longrightarrow>
          fetch e (length (fetchLog s)) prefix = Http status b \<Longrightarrow>
          \<not> ok status \<Longrightarrow> status \<noteq> 429 \<Longrightarrow>
          Q s r (processPrefix_catch
                  ((requestIssued e s prefix)
                     \<lparr>stats := (stats (requestIssued e s prefix))
                                 \<lparr>failedRequests := failedRequests (stats s) + 1\<rparr>\<rparr>) prefix)"
    and thrown: "\<And>s r. isRunning s \<Longrightarrow> cachedResults s prefix = None \<Longrightarrow>
          \<not> shouldSkipPrefix s prefix \<Longrightarrow> \<not> simulationMode s \<Longrightarrow>
          fetch e (length (fetchLog s)) prefix = FetchRejected \<or>
          (\<exists>status. ok status \<and> fetch e (length (fetchLog s)) prefix = Http status BadJson) \<Longrightarrow>
          Q s r (processPrefix_catch (requestIssued e s prefix) prefix)"
    and ok: "\<And>s r status res. isRunning s \<Longrightarrow> cachedResults s prefix = None \<Longrightarrow>
          \<not> shouldSkipPrefix s prefix \<Longrightarrow> \<not> simulationMode s \<Longrightarrow>
          fetch e (length (fetchLog s)) prefix = Http status (Json res) \<Longrightarrow> ok status \<Longrightarrow>
          Q s r (handleResults
                  ((requestIssued e s prefix)
                     \<lparr>cachedResults := (cachedResults s)
                        (prefix \<mapsto> (case res of None \<Rightarrow> [] | Some results \<Rightarrow> results))\<rparr>)
                  prefix (case res of None \<Rightarrow> [] | Some results \<Rightarrow> results) False)"
  shows "Q s r (processPrefix e s prefix r)"
  using assms
proof (induction e s prefix r rule: processPrefix.induct)
  case (1 e s prefix r)
  note hyps = "1.prems"
  show ?case
  proof (cases "isRunning s")
    case False
    then have eq: "processPrefix e s prefix r = s"
      by (rule processPrefix_notRunning)
    have "Q s r s"
      using False by (rule hyps(1))
    then show ?thesis by (simp only: eq)
  next
    case run: True
    show ?thesis
    proof (cases "cachedResults s prefix")
      case (Some names)
      with run have eq: "processPrefix e s prefix r = handleResults s prefix names True"
        by (rule processPrefix_cached)
      have "Q s r (handleResults s prefix names True)"
        using run Some by (rule hyps(2))
      then show ?thesis by (simp only: eq)
    next
      case miss: None
      show ?thesis
      proof (cases "shouldSkipPrefix s prefix")
        case True
        note eq = processPrefix_skipped [OF run miss True, of e r]
        show ?thesis
          unfolding eq using run miss True by (rule hyps(3))
      next
        case go: False
        show ?thesis
        proof (cases "simulationMode s")
          case True
          note eq = processPrefix_simulated [OF run miss go True, of e r]
          show ?thesis
            unfolding eq using run miss go True by (rule hyps(4))
        next
          case real: False
          show ?thesis
          proof (cases "fetch e (length (fetchLog s)) prefix")
            case FetchRejected
            then have eq: "processPrefix e s prefix r =
                processPrefix_catch (requestIssued e s prefix) prefix"
              using run miss go real by (intro processPrefix_thrown) auto
            have "Q s r (processPrefix_catch (requestIssued e s prefix) prefix)"
              using run miss go real FetchRejected by (intro hyps(8)) auto
            then show ?thesis by (simp only: eq)
          next
            case (Http status b)
            show ?thesis
            proof (cases "ok status")
              case good: True
              show ?thesis
              proof (cases b)
                case BadJson
                with run miss go real Http good
                have eq: "processPrefix e s prefix r =
                    processPrefix_catch (requestIssued e s prefix) prefix"
                  by (intro processPrefix_thrown) auto
                have "Q s r (processPrefix_catch (requestIssued e s prefix) prefix)"
                  using run miss go real Http good BadJson by (intro hyps(8)) auto
                then show ?thesis by (simp only: eq)
              next
                case (Json res)
                note f = Http [unfolded Json]
                note eq = processPrefix_ok [OF run miss go real f good, of r]
                show ?thesis
                  unfolding eq using run miss go real f good by (rule hyps(9))
              qed
            next
              case bad: False
              show ?thesis
              proof (cases "status = 429")
                case False
                note eq = processPrefix_status [OF run miss go real Http bad False, of r]
                show ?thesis
                  unfolding eq using run miss go real Http bad False by (rule hyps(7))
              next
                case limited: True
                show ?thesis
                proof (cases "int r < maxRetries (options s)")
                  case False
                  note f = Http [unfolded limited]
                  note eq = processPrefix_exhausted [OF run miss go real f False]
                  show ?thesis
                    unfolding eq using run miss go real f False by (rule hyps(6))
                next
                  case again: True
                  have IH: "Q (rateLimitedRetry e s prefix) (Suc r)
                      (processPrefix e (rateLimitedRetry e s prefix) prefix (Suc r))"
                    using "1.IH" run miss go real Http bad limited again hyps
                    by (simp add: rateLimitedRetry_def requestIssued_def requestCounted_def)
                  have eq: "processPrefix e s prefix r =
                      processPrefix e (rateLimitedRetry e s prefix) prefix (Suc r)"
                    using run miss go real Http limited again by (intro processPrefix_retry) auto
                  have "Q s r (processPrefix e (rateLimitedRetry e s prefix) prefix (Suc r))"
                    using run miss go real Http limited again IH by (intro hyps(5)) auto
                  then show ?thesis by (simp only: eq)
                qed
              qed
            qed
          qed
        qed
      qed
    qed
  qed
qed


lemma processPrefix_blocked_mono:
  "set (blockedPrefixes (stats s)) \<subseteq> set (blockedPrefixes (stats (processPrefix e s prefix r)))"
  by (rule processPrefix_cases_induct
        [where Q = "\<lambda>s r s'. set (blockedPrefixes (stats s)) \<subseteq> set (blockedPrefixes (stats s'))"])
     (auto simp: processPrefix_catch_def Let_def)

lemma processPrefix_fetchLog:
  "\<exists>k. fetchLog (processPrefix e s prefix r) = fetchLog s @ replicate k prefix \<and>
       k \<le> nat (maxRetries (options s) - int r) + 1 \<and>
       (0 < k \<longleftrightarrow> isRunning s \<and> cachedResults s prefix = None \<and> \<not> shouldSkipPrefix s prefix \<and>
                 \<not> simulationMode s) \<and>
       (0 < k \<longrightarrow> cachedResults (processPrefix e s prefix r) prefix \<noteq> None)"
proof (rule processPrefix_cases_induct
        [where Q = "\<lambda>s r s'. \<exists>k. fetchLog s' = fetchLog s @ replicate k prefix \<and>
       k \<le> nat (maxRetries (options s) - int r) + 1 \<and>
       (0 < k \<longleftrightarrow> isRunning s \<and> cachedResults s prefix = None \<and> \<not> shouldSkipPrefix s prefix \<and>
                 \<not> simulationMode s) \<and>
       (0 < k \<longrightarrow> cachedResults s' prefix \<noteq> None)"], goal_cases)
  case (1 s r) then show ?case by (intro exI [of _ 0]) simp
next
  case (2 s r names) then show ?case by (intro exI [of _ 0]) simp
next
  case (3 s r) then show ?case by (intro exI [of _ 0]) simp
next
  case (4 s r) then show ?case by (intro exI [of _ 0]) simp
next
  case (5 s r b)
  let ?s' = "processPrefix e (rateLimitedRetry e s prefix) prefix (Suc r)"
  from 5(7) obtain k where k: "fetchLog ?s' = fetchLog (rateLimitedRetry e s prefix) @ replicate k prefix"
      "k \<le> nat (maxRetries (options (rateLimitedRetry e s prefix)) - int (Suc r)) + 1"
      "0 < k \<longrightarrow> cachedResults ?s' prefix \<noteq> None"
      "0 < k \<longleftrightarrow> isRunning (rateLimitedRetry e s prefix) \<and>
         cachedResults (rateLimitedRetry e s prefix) prefix = None \<and>
         \<not> shouldSkipPrefix (rateLimitedRetry e s prefix) prefix \<and>
         \<not> simulationMode (rateLimitedRetry e s prefix)"
    by blast
  have pos: "0 < k" using k(4) 5(1-4) by simp
  have log: "fetchLog ?s' = fetchLog s @ replicate (Suc k) prefix"
    using k(1) by simp
  have bound: "Suc k \<le> nat (maxRetries (options s) - int r) + 1"
    using k(2) 5(6) by simp
  show ?case
    using log bound pos k(3) 5(1-4) by (intro exI [of _ "Suc k"]) simp
next
  case (6 s r b) then show ?case by (intro exI [of _ 1]) (simp add: processPrefix_catch_cached)
next
  case (7 s r status b) then show ?case by (intro exI [of _ 1]) (simp add: processPrefix_catch_cached)
next
  case (8 s r) then show ?case by (intro exI [of _ 1]) (simp add: processPrefix_catch_cached)
next
  case (9 s r status res) then show ?case by (intro exI [of _ 1]) simp
qed

text \<open>Invariants of a run.\<close>

lemma scheduling_sameCore:
  "sameCore t (snd (calculateOptimalConcurrency t))"
  "sameCore t (snd (selectOptimalPrefix t))"
  "sameCore t (taskStarted t)"
  "sameCore t (taskSettled t)"
  "sameCore t (pause t)"
  "sameCore t (resume t)"
  "sameCore t (stop t)"
  "sameCore t (start t)"
  "sameCore t (enableSimulationMode enabled t)"
  by (simp_all add: sameCore_def calculateOptimalConcurrency_def selectOptimalPrefix_def
        taskStarted_def taskSettled_def pause_def resume_def stop_def start_def
        enableSimulationMode_def Let_def split: list.splits)

lemma run_invariant:
  assumes "run e s t" and "P s"
    and "\<And>t u. P t \<Longrightarrow> sameCore t u \<Longrightarrow> P u"
    and "\<And>t prefix retryCount. P t \<Longrightarrow> P (processPrefix e t prefix retryCount)"
  shows "P t"
  using assms(1)
proof (induction rule: run.induct)
  case run_init
  show ?case by (rule assms(2))
next
  case (run_process t prefix retryCount)
  then show ?case by (intro assms(4))
qed (blast intro: assms(3) scheduling_sameCore)+




lemma run_blocked:
  assumes "run e s t"
  shows "set (blockedPrefixes (stats s)) \<subseteq> set (blockedPrefixes (stats t))"
  using assms
proof (rule run_invariant [where P = "\<lambda>t. set (blockedPrefixes (stats s)) \<subseteq> set (blockedPrefixes (stats t))"], goal_cases)
  case (3 t prefix retryCount)
  then show ?case using processPrefix_blocked_mono [of t e prefix retryCount] by blast
qed (simp_all add: sameCore_def)

lemma processPrefix_efficiency:
  "efficiency (stats s) =
     (if successfulRequests (stats s) = 0 then 0
      else of_nat (length (uniqueNames (stats s))) / of_nat (successfulRequests (stats s))) \<Longrightarrow>
   efficiency (stats (processPrefix e s prefix r)) =
     (if successfulRequests (stats (processPrefix e s prefix r)) = 0 then 0
      else of_nat (length (uniqueNames (stats (processPrefix e s prefix r)))) /
           of_nat (successfulRequests (stats (processPrefix e s prefix r))))"
  by (rule processPrefix_cases_induct
        [where Q = "\<lambda>s r s'. efficiency (stats s) =
     (if successfulRequests (stats s) = 0 then 0
      else of_nat (length (uniqueNames (stats s))) / of_nat (successfulRequests (stats s))) \<longrightarrow>
   efficiency (stats s') =
     (if successfulRequests (stats s') = 0 then 0
      else of_nat (length (uniqueNames (stats s'))) / of_nat (successfulRequests (stats s')))", rule_format])
     (simp_all add: handleResults_efficiency processPrefix_catch_def Let_def)

text \<open>Two concrete first steps of a started service.\<close>

lemma started_not_skipped_a: "\<not> shouldSkipPrefix started ''a''"
  by (simp add: shouldSkipPrefix_def)

lemma fetch_answers [simp]:
  "fetch (answers rs) k prefix = (if k < length rs then rs ! k else FetchRejected)"
  by (simp add: answers_def)

lemma first_ok:
  "processPrefix (answers [Http 200 (Json (Some [''alice'', ''anna'', ''alice'']))]) started ''a'' 0 =
     handleResults
       ((requestIssued (answers [Http 200 (Json (Some [''alice'', ''anna'', ''alice'']))]) started ''a'')
          \<lparr>cachedResults := [''a'' \<mapsto> [''alice'', ''anna'', ''alice'']]\<rparr>)
       ''a'' [''alice'', ''anna'', ''alice''] False"
  using processPrefix_ok [of started "''a''" "answers [Http 200 (Json (Some [''alice'', ''anna'', ''alice'']))]"
      200 "Some [''alice'', ''anna'', ''alice'']" 0] started_not_skipped_a
  by (simp add: ok_def)

lemma noteName_uniqueNames:
  "uniqueNames (stats (noteName name s)) =
     (if name \<in> set (uniqueNames (stats s)) then uniqueNames (stats s)
      else uniqueNames (stats s) @ [name])"
  by (simp add: noteName_def Let_def)

lemma fold_noteName_uniqueNames_list:
  "uniqueNames (stats (fold noteName names s)) =
     fold (\<lambda>name u. if name \<in> set u then u else u @ [name]) names (uniqueNames (stats s))"
  by (induction names arbitrary: s) (simp_all add: noteName_uniqueNames)

lemma handleResults_uniqueNames:
  "uniqueNames (stats (handleResults s prefix names fromCache)) =
     fold (\<lambda>name u. if name \<in> set u then u else u @ [name]) names (uniqueNames (stats s))"
  by (simp add: handleResults_def Let_def fold_noteName_uniqueNames_list)

lemma first_ok_uniqueNames:
  "uniqueNames (stats (handleResults
       ((requestIssued (answers [Http 200 (Json (Some [''alice'', ''anna'', ''alice'']))]) started ''a'')
          \<lparr>cachedResults := [''a'' \<mapsto> [''alice'', ''anna'', ''alice'']]\<rparr>)
       ''a'' [''alice'', ''anna'', ''alice''] False)) = [''alice'', ''anna'']"
  by (simp add: handleResults_uniqueNames)


text \<open>The run in which \<open>joh\<close> is cached before \<open>jo\<close> is blocked, step by step.\<close>

lemma upt_1_4: "[1 ..< 4] = [1, 2, 3::nat]" by (simp add: upt_rec)
lemma upt_1_3: "[1 ..< 3] = [1, 2::nat]" by (simp add: upt_rec)
lemma upt_1_2: "[1 ..< 2] = [1::nat]" by (simp add: upt_rec)

lemma namePatterns_joh: "namePatterns (new_DiscoveryServiceV3 noOptions) ''joh'' = Some 1"
  by (simp add: new_DiscoveryServiceV3_def initializeCommonNames_def commonEnglishNames_def
        upt_1_4 fold_simps del: fold_Cons fold_Nil)

lemma handleResults_prefixQueue_leaf:
  "3 \<le> length prefix \<or> (names = [] \<and> 2 \<le> length prefix) \<Longrightarrow>
   prefixQueue (handleResults s prefix names fromCache) = prefixQueue s"
  by (auto simp: handleResults_def Let_def generateOptimalNextPrefixes_def)

lemma johnService_fields [simp]:
  "stats johnService = emptyStats"
  "isRunning johnService = True"
  "prefixQueue johnService = [''jo'', ''joh'']"
  "prefixPatterns johnService = Map.empty"
  "cachedResults johnService = Map.empty"
  "simulationMode johnService = False"
  "fetchLog johnService = []"
  "namePatterns johnService = namePatterns (new_DiscoveryServiceV3 noOptions)"
  "maxRetries (options johnService) = 3"
  by (simp_all add: johnService_def start_def, simp_all add: new_DiscoveryServiceV3_def
        initializeCommonNames_def nullish_def noOptions_def)

lemma johnService_not_skipped_joh: "\<not> shouldSkipPrefix johnService ''joh''"
  by (simp add: shouldSkipPrefix_def getPatternScore_def namePatterns_joh upt_1_3)

lemma afterJoh_eq:
  "afterJoh =
     handleResults
       ((requestIssued johnServer (rateLimitedRetry johnServer johnService ''joh'') ''joh'')
          \<lparr>cachedResults := [''joh'' \<mapsto> [''john'']]\<rparr>)
       ''joh'' [''john''] False"
proof -
  have "processPrefix johnServer johnService ''joh'' 0 =
      processPrefix johnServer (rateLimitedRetry johnServer johnService ''joh'') ''joh'' (Suc 0)"
    using processPrefix_retry [of johnService "''joh''" johnServer BadJson 0] johnService_not_skipped_joh
    by (simp add: johnServer_def)
  also have "\<dots> = handleResults
       ((requestIssued johnServer (rateLimitedRetry johnServer johnService ''joh'') ''joh'')
          \<lparr>cachedResults := [''joh'' \<mapsto> [''john'']]\<rparr>)
       ''joh'' [''john''] False"
    using processPrefix_ok [of "rateLimitedRetry johnServer johnService ''joh''" "''joh''" johnServer 200
        "Some [''john'']" "Suc 0"] johnService_not_skipped_joh
    by (simp add: ok_def johnServer_def)
  finally show ?thesis by (simp only: afterJoh_def)
qed

lemma afterJoh_fields:
  "isRunning afterJoh"
  "\<not> simulationMode afterJoh"
  "cachedResults afterJoh = [''joh'' \<mapsto> [''john'']]"
  "fetchLog afterJoh = [''joh'', ''joh'']"
  "blockedPrefixes (stats afterJoh) = []"
  "skippedPrefixes (stats afterJoh) = []"
  "exploredPrefixes (stats afterJoh) = [''joh'']"
  "prefixQueue afterJoh = [''joh'', ''jo'', ''joh'']"
  "prefixPatterns afterJoh = [''joh'' \<mapsto> 2, ''jo'' \<mapsto> 1]"
  by (simp_all add: afterJoh_eq handleResults_prefixQueue_leaf handleResults_prefixPatterns
        updatePatternScore_def)

lemma afterJoh_not_skipped_jo: "\<not> shouldSkipPrefix afterJoh ''jo''"
  by (simp add: shouldSkipPrefix_def getPatternScore_def afterJoh_fields upt_1_2)

lemma afterJo_eq:
  "afterJo =
     handleResults
       ((requestIssued johnServer afterJoh ''jo'')
          \<lparr>cachedResults := [''joh'' \<mapsto> [''john''], ''jo'' \<mapsto> []]\<rparr>)
       ''jo'' [] False"
  using processPrefix_ok [of afterJoh "''jo''" johnServer 200 "Some []" 0] afterJoh_not_skipped_jo
  by (simp add: afterJo_def afterJoh_fields ok_def johnServer_def)

lemma afterJo_fields:
  "isRunning afterJo"
  "cachedResults afterJo ''joh'' = Some [''john'']"
  "fetchLog afterJo = [''joh'', ''joh'', ''jo'']"
  "blockedPrefixes (stats afterJo) = [''jo'']"
  "skippedPrefixes (stats afterJo) = []"
  "exploredPrefixes (stats afterJo) = [''joh'', ''jo'']"
  "prefixQueue afterJo = [''joh'', ''jo'', ''joh'']"
  by (simp_all add: afterJo_eq afterJoh_fields handleResults_prefixQueue_leaf)

lemma shouldSkipPrefix_blocked:
  "b \<in> set (blockedPrefixes (stats t)) \<Longrightarrow> startsWith q b \<Longrightarrow> 1 < length q \<Longrightarrow>
   shouldSkipPrefix t q"
  by (auto simp: shouldSkipPrefix_def list_ex_iff)

lemma run_blocked_not_fetched:
  assumes "run e s t" and "b \<in> set (blockedPrefixes (stats s))" and "startsWith q b"
    and "1 < length q"
  shows "b \<in> set (blockedPrefixes (stats t)) \<and>
         (\<exists>xs. fetchLog t = fetchLog s @ xs \<and> q \<notin> set xs)"
  using assms(1)
proof (rule run_invariant [where P = "\<lambda>t. b \<in> set (blockedPrefixes (stats t)) \<and>
         (\<exists>xs. fetchLog t = fetchLog s @ xs \<and> q \<notin> set xs)"], goal_cases)
  case 1
  show ?case using assms(2) by simp
next
  case (2 t u)
  then show ?case by (simp add: sameCore_def)
next
  case (3 t prefix retryCount)
  then obtain xs where xs: "fetchLog t = fetchLog s @ xs" "q \<notin> set xs"
    and b: "b \<in> set (blockedPrefixes (stats t))" by blast
  let ?t' = "processPrefix e t prefix retryCount"
  obtain k where k: "fetchLog ?t' = fetchLog t @ replicate k prefix"
      "0 < k \<longleftrightarrow> isRunning t \<and> cachedResults t prefix = None \<and> \<not> shouldSkipPrefix t prefix \<and>
                 \<not> simulationMode t"
    using processPrefix_fetchLog [of e t prefix retryCount] by blast
  have "prefix = q \<Longrightarrow> k = 0"
    using k(2) shouldSkipPrefix_blocked [OF b assms(3,4)] by auto
  then have "q \<notin> set (xs @ replicate k prefix)"
    using xs(2) by (cases k) auto
  moreover have "fetchLog ?t' = fetchLog s @ (xs @ replicate k prefix)"
    using k(1) xs(1) by simp
  moreover have "b \<in> set (blockedPrefixes (stats ?t'))"
    using b processPrefix_blocked_mono [of t e prefix retryCount] by blast
  ultimately show ?case by blast
qed

lemma noteName_distinct:
  "distinct (uniqueNames (stats s)) \<Longrightarrow> distinct (uniqueNames (stats (noteName name s)))"
  by (simp add: noteName_def Let_def)

lemma fold_noteName_distinct:
  "distinct (uniqueNames (stats s)) \<Longrightarrow> distinct (uniqueNames (stats (fold noteName names s)))"
  by (induction names arbitrary: s) (simp_all add: noteName_distinct)

lemma handleResults_distinct:
  "distinct (uniqueNames (stats s)) \<Longrightarrow>
   distinct (uniqueNames (stats (handleResults s prefix names fromCache)))"
  by (simp add: handleResults_def Let_def fold_noteName_distinct)

lemma processPrefix_distinct:
  "distinct (uniqueNames (stats s)) \<Longrightarrow>
   distinct (uniqueNames (stats (processPrefix e s prefix r)))"
  by (rule processPrefix_cases_induct
        [where Q = "\<lambda>s r s'. distinct (uniqueNames (stats s)) \<longrightarrow>
           distinct (uniqueNames (stats s'))", rule_format])
     (simp_all add: handleResults_distinct processPrefix_catch_def Let_def)

text \<open>The stretches of \<open>processPrefix\<close> between its awaits.\<close>

text \<open>The uninterrupted chain is the stretches run one after the other.\<close>

lemma processPrefix_stretches:
  "processPrefix e s prefix retryCount =
     (case processPrefix_enter e s prefix retryCount of
        (s1, None) \<Rightarrow> s1
      | (s1, Some (AwaitBackoff p r)) \<Rightarrow> s1
      | (s1, Some (AwaitFetch p r k)) \<Rightarrow>
          (case processPrefix_answered e s1 p r k of
             (s2, None) \<Rightarrow> s2
           | (s2, Some _) \<Rightarrow>
               (if int r < maxRetries (options s2)
                then processPrefix e (s2\<lparr>prefixQueue := p # prefixQueue s2\<rparr>) p (r + 1)
                else fst (processPrefix_resumed e s2 p r))))"
  by (subst processPrefix.simps)
     (simp add: processPrefix_enter_def processPrefix_answered_def processPrefix_resumed_def
        Let_def split: option.splits response.splits body.splits)








lemma updateOptions_fields [simp]:
  "cachedResults (updateOptions opts s) = cachedResults s"
  "fetchLog (updateOptions opts s) = fetchLog s"
  by (simp_all add: updateOptions_def)


subsection \<open>Pattern scorer\<close>

text \<open>
  Claim C4, as stated, fails: after the single-letter prefix \<open>a\<close> has been observed
  with nine results its stored score is 5, and \<open>getPatternScore\<close> still answers 3,
  because the length test comes before the lookup.
\<close>

theorem C4_stored_score_ignored_for_single_letter:
  "prefixPatterns (updatePatternScore (new_DiscoveryServiceV3 noOptions) ''a'' 9) ''a'' = Some 5 \<and>
   getPatternScore (updatePatternScore (new_DiscoveryServiceV3 noOptions) ''a'' 9) ''a'' = 3"
  by (simp add: updatePatternScore_def getPatternScore_def)

text \<open>
  Claim C4, amended: a prefix of length at least 2 that has a stored score gets that
  score verbatim; a prefix of length at most 1 scores 3 whatever is stored for it.
\<close>

theorem C4_getPatternScore:
  "(2 \<le> length prefix \<and> prefixPatterns s prefix = Some v \<longrightarrow> getPatternScore s prefix = v) \<and>
   (length prefix \<le> 1 \<longrightarrow> getPatternScore s prefix = 3)"
  by (simp add: getPatternScore_def)

theorem C4_getPatternScore_witness:
  "2 \<le> length ''jo'' \<and>
   prefixPatterns (updatePatternScore (new_DiscoveryServiceV3 noOptions) ''jo'' 7) ''jo'' = Some 4 \<and>
   getPatternScore (updatePatternScore (new_DiscoveryServiceV3 noOptions) ''jo'' 7) ''jo'' = 4 \<and>
   length ''a'' \<le> 1 \<and>
   getPatternScore (updatePatternScore (new_DiscoveryServiceV3 noOptions) ''a'' 9) ''a'' = 3"
proof -
  have stored:
    "prefixPatterns (updatePatternScore (new_DiscoveryServiceV3 noOptions) ''jo'' 7) ''jo'' = Some 4"
    by (simp add: updatePatternScore_def)
  show ?thesis
    using stored
      C4_getPatternScore [of "''jo''" "updatePatternScore (new_DiscoveryServiceV3 noOptions) ''jo'' 7" 4]
      C4_getPatternScore [of "''a''" "updatePatternScore (new_DiscoveryServiceV3 noOptions) ''a'' 9"]
    by simp
qed

text \<open>
  Claim C7: \<open>updatePatternScore\<close> stores the bucketed score for the prefix (0 results
  give 0, 1 to 2 give 2, 3 to 5 give 3, 6 to 8 give 4, more than 8 give 5). When the
  result count is positive and the prefix is longer than one character, the parent's
  stored score (0 when it has none) goes up by 1 if it was below 5, and is left as it
  was otherwise. In every call, whatever the result count, the parent's stored score is
  never lowered: it is left as it was when the result count is 0 or the prefix is a
  single character, and no stored score of any prefix other than the updated one is
  lowered.
\<close>

theorem C7_updatePatternScore:
  "prefixPatterns (updatePatternScore s prefix resultCount) prefix =
     Some (if resultCount = 0 then 0
           else if resultCount \<le> 2 then 2
           else if resultCount \<le> 5 then 3
           else if resultCount \<le> 8 then 4
           else 5) \<and>
   (resultCount > 0 \<and> length prefix > 1 \<longrightarrow>
      (let old = (case prefixPatterns s (butlast prefix) of None \<Rightarrow> 0 | Some v \<Rightarrow> v);
           new = prefixPatterns (updatePatternScore s prefix resultCount) (butlast prefix)
       in (old < 5 \<longrightarrow> new = Some (min 5 (old + 1))) \<and>
          (5 \<le> old \<longrightarrow> new = prefixPatterns s (butlast prefix)))) \<and>
   (prefix \<noteq> [] \<and> (resultCount = 0 \<or> length prefix \<le> 1) \<longrightarrow>
      prefixPatterns (updatePatternScore s prefix resultCount) (butlast prefix) =
        prefixPatterns s (butlast prefix)) \<and>
   (prefix \<noteq> [] \<and> prefixPatterns s (butlast prefix) = Some v \<longrightarrow>
      (\<exists>v'. prefixPatterns (updatePatternScore s prefix resultCount) (butlast prefix) = Some v' \<and>
            v \<le> v')) \<and>
   (q \<noteq> prefix \<and> prefixPatterns s q = Some w \<longrightarrow>
      (\<exists>w'. prefixPatterns (updatePatternScore s prefix resultCount) q = Some w' \<and> w \<le> w'))"
proof -
  have bucket: "prefixPatterns (updatePatternScore s prefix resultCount) prefix =
     Some (if resultCount = 0 then 0
           else if resultCount \<le> 2 then 2
           else if resultCount \<le> 5 then 3
           else if resultCount \<le> 8 then 4
           else 5)"
    by (cases "length prefix > 1") (simp_all add: butlast_neq updatePatternScore_def Let_def)
  have raise: "resultCount > 0 \<and> length prefix > 1 \<longrightarrow>
      (let old = (case prefixPatterns s (butlast prefix) of None \<Rightarrow> 0 | Some v \<Rightarrow> v);
           new = prefixPatterns (updatePatternScore s prefix resultCount) (butlast prefix)
       in (old < 5 \<longrightarrow> new = Some (min 5 (old + 1))) \<and>
          (5 \<le> old \<longrightarrow> new = prefixPatterns s (butlast prefix)))"
    by (simp add: butlast_neq updatePatternScore_def Let_def)
  have other: "\<exists>w'. prefixPatterns (updatePatternScore s prefix resultCount) q = Some w' \<and> w \<le> w'"
    if "q \<noteq> prefix" and "prefixPatterns s q = Some w" for q w
    using that by (auto simp add: updatePatternScore_def Let_def)
  have same: "prefix \<noteq> [] \<and> (resultCount = 0 \<or> length prefix \<le> 1) \<longrightarrow>
      prefixPatterns (updatePatternScore s prefix resultCount) (butlast prefix) =
        prefixPatterns s (butlast prefix)"
    using butlast_neq_nonempty [of prefix] by (auto simp add: updatePatternScore_def Let_def)
  have parent: "prefix \<noteq> [] \<and> prefixPatterns s (butlast prefix) = Some v \<longrightarrow>
      (\<exists>v'. prefixPatterns (updatePatternScore s prefix resultCount) (butlast prefix) = Some v' \<and>
            v \<le> v')"
    using other [of "butlast prefix" v] butlast_neq_nonempty [of prefix] by blast
  have any: "q \<noteq> prefix \<and> prefixPatterns s q = Some w \<longrightarrow>
      (\<exists>w'. prefixPatterns (updatePatternScore s prefix resultCount) q = Some w' \<and> w \<le> w')"
    using other [of q w] by blast
  show ?thesis
    by (rule conjI [OF bucket conjI [OF raise conjI [OF same conjI [OF parent any]]]])
qed

theorem C7_updatePatternScore_witness:
  "(3::nat) > 0 \<and> length ''jo'' > 1 \<and> ''jo'' \<noteq> [] \<and> ''j'' \<noteq> ''jo'' \<and>
   prefixPatterns (updatePatternScore (new_DiscoveryServiceV3 noOptions) ''jo'' 3) ''jo'' = Some 3 \<and>
   prefixPatterns (updatePatternScore (new_DiscoveryServiceV3 noOptions) ''jo'' 3) ''j'' = Some 1 \<and>
   prefixPatterns
     (updatePatternScore ((new_DiscoveryServiceV3 noOptions)\<lparr>prefixPatterns := [''j'' \<mapsto> 5]\<rparr>) ''jo'' 3)
     ''j'' = Some 5 \<and>
   prefixPatterns ((new_DiscoveryServiceV3 noOptions)\<lparr>prefixPatterns := [''j'' \<mapsto> 4]\<rparr>) ''j'' = Some 4 \<and>
   prefixPatterns
     (updatePatternScore ((new_DiscoveryServiceV3 noOptions)\<lparr>prefixPatterns := [''j'' \<mapsto> 4]\<rparr>) ''jo'' 0)
     ''j'' = Some 4"
  using C7_updatePatternScore [of "new_DiscoveryServiceV3 noOptions" "''jo''" 3 0 "''j''" 0]
    C7_updatePatternScore
      [of "(new_DiscoveryServiceV3 noOptions)\<lparr>prefixPatterns := [''j'' \<mapsto> 5]\<rparr>" "''jo''" 3 5 "''j''" 5]
    C7_updatePatternScore
      [of "(new_DiscoveryServiceV3 noOptions)\<lparr>prefixPatterns := [''j'' \<mapsto> 4]\<rparr>" "''jo''" 0 4 "''j''" 4]
  by (simp add: Let_def)

subsection \<open>Rate controller\<close>




subsection \<open>Prefix task executor\<close>

text \<open>
  Claim C8: processing a prefix whose result set is cached (while the service runs) does
  not increment the successful-request counter; the cached names are inserted into the
  discovered-name set and the pattern scorer is updated with the cached result count.
  No request is sent.
\<close>

theorem C8_cache_hit:
  "isRunning s \<and> cachedResults s prefix = Some names \<longrightarrow>
     successfulRequests (stats (processPrefix e s prefix retryCount)) = successfulRequests (stats s) \<and>
     set (uniqueNames (stats (processPrefix e s prefix retryCount))) =
       set (uniqueNames (stats s)) \<union> set names \<and>
     prefixPatterns (processPrefix e s prefix retryCount) =
       prefixPatterns (updatePatternScore s prefix (length names)) \<and>
     fetchLog (processPrefix e s prefix retryCount) = fetchLog s"
  by (simp add: processPrefix_cached handleResults_prefixPatterns)

theorem C8_cache_hit_witness:
  "isRunning (started\<lparr>cachedResults := [''an'' \<mapsto> [''anna'', ''andy'']]\<rparr>) \<and>
   cachedResults (started\<lparr>cachedResults := [''an'' \<mapsto> [''anna'', ''andy'']]\<rparr>) ''an'' =
     Some [''anna'', ''andy''] \<and>
   successfulRequests (stats (processPrefix \<lparr>fetch = \<lambda>k p. FetchRejected, now = \<lambda>k. 0\<rparr>
      (started\<lparr>cachedResults := [''an'' \<mapsto> [''anna'', ''andy'']]\<rparr>) ''an'' 0)) = 0 \<and>
   set (uniqueNames (stats (processPrefix \<lparr>fetch = \<lambda>k p. FetchRejected, now = \<lambda>k. 0\<rparr>
      (started\<lparr>cachedResults := [''an'' \<mapsto> [''anna'', ''andy'']]\<rparr>) ''an'' 0))) =
     {''anna'', ''andy''} \<and>
   prefixPatterns (processPrefix \<lparr>fetch = \<lambda>k p. FetchRejected, now = \<lambda>k. 0\<rparr>
      (started\<lparr>cachedResults := [''an'' \<mapsto> [''anna'', ''andy'']]\<rparr>) ''an'' 0) ''an'' = Some 2 \<and>
   fetchLog (processPrefix \<lparr>fetch = \<lambda>k p. FetchRejected, now = \<lambda>k. 0\<rparr>
      (started\<lparr>cachedResults := [''an'' \<mapsto> [''anna'', ''andy'']]\<rparr>) ''an'' 0) = []"
  using C8_cache_hit [of "started\<lparr>cachedResults := [''an'' \<mapsto> [''anna'', ''andy'']]\<rparr>"
      "''an''" "[''anna'', ''andy'']" "\<lparr>fetch = \<lambda>k p. FetchRejected, now = \<lambda>k. 0\<rparr>" 0]
  by (simp add: updatePatternScore_def Let_def)

text \<open>
  Claim C2: with \<open>maxRetries = 3\<close>, when the first two requests for a prefix are
  answered with status 429 and the third succeeds, processing the prefix adds exactly 1
  to the successful-request counter, exactly 2 to the rate-limited counter and nothing
  to the failed-request counter. The copies of the prefix that the two retries left in
  the queue are served from the cache when they are processed later, whatever the
  network then answers, and change none of the three counters.
\<close>

theorem C2_two_rate_limits_then_success:
  assumes "isRunning s" and "cachedResults s prefix = None" and "\<not> shouldSkipPrefix s prefix"
    and "\<not> simulationMode s" and "maxRetries (options s) = 3"
    and "fetch e (length (fetchLog s)) prefix = Http 429 b1"
    and "fetch e (length (fetchLog s) + 1) prefix = Http 429 b2"
    and "fetch e (length (fetchLog s) + 2) prefix = Http status (Json r)" and "ok status"
  shows "successfulRequests (stats (processPrefix e s prefix 0)) = successfulRequests (stats s) + 1 \<and>
         rateLimited (stats (processPrefix e s prefix 0)) = rateLimited (stats s) + 2 \<and>
         failedRequests (stats (processPrefix e s prefix 0)) = failedRequests (stats s) \<and>
         successfulRequests (stats (processPrefix e' (processPrefix e s prefix 0) prefix retryCount')) =
           successfulRequests (stats s) + 1 \<and>
         rateLimited (stats (processPrefix e' (processPrefix e s prefix 0) prefix retryCount')) =
           rateLimited (stats s) + 2 \<and>
         failedRequests (stats (processPrefix e' (processPrefix e s prefix 0) prefix retryCount')) =
           failedRequests (stats s)"
proof -
  let ?s1 = "rateLimitedRetry e s prefix"
  let ?s2 = "rateLimitedRetry e ?s1 prefix"
  let ?names = "case r of None \<Rightarrow> [] | Some results \<Rightarrow> results"
  let ?done = "handleResults
       ((requestIssued e ?s2 prefix)\<lparr>cachedResults := (cachedResults ?s2)(prefix \<mapsto> ?names)\<rparr>)
       prefix ?names False"
  have "processPrefix e s prefix 0 = processPrefix e ?s1 prefix (Suc 0)"
    using processPrefix_retry [of s prefix e b1 0] assms by simp
  also have "\<dots> = processPrefix e ?s2 prefix (Suc (Suc 0))"
    using processPrefix_retry [of ?s1 prefix e b2 "Suc 0"] assms by simp
  also have "\<dots> = ?done"
    using processPrefix_ok [of ?s2 prefix e status r "Suc (Suc 0)"] assms by simp
  finally have first: "processPrefix e s prefix 0 = ?done" .
  define d where "d = ?done"
  have counters: "successfulRequests (stats d) = successfulRequests (stats s) + 1"
    "rateLimited (stats d) = rateLimited (stats s) + 2"
    "failedRequests (stats d) = failedRequests (stats s)"
    by (simp_all add: d_def)
  have "isRunning d" and "cachedResults d prefix = Some ?names"
    using assms by (simp_all add: d_def)
  then have again: "processPrefix e' d prefix retryCount' = handleResults d prefix ?names True"
    by (rule processPrefix_cached)
  have "processPrefix e s prefix 0 = d"
    using first by (simp only: d_def)
  then show ?thesis
    by (simp add: again counters)
qed

theorem C2_two_rate_limits_then_success_witness:
  "isRunning started \<and> cachedResults started ''a'' = None \<and> \<not> shouldSkipPrefix started ''a'' \<and>
   \<not> simulationMode started \<and> maxRetries (options started) = 3 \<and>
   successfulRequests (stats (processPrefix
      \<lparr>fetch = \<lambda>k p. if k < 2 then Http 429 BadJson else Http 200 (Json (Some [''alice'', ''anna''])),
       now = \<lambda>k. 0\<rparr> started ''a'' 0)) = 1 \<and>
   rateLimited (stats (processPrefix
      \<lparr>fetch = \<lambda>k p. if k < 2 then Http 429 BadJson else Http 200 (Json (Some [''alice'', ''anna''])),
       now = \<lambda>k. 0\<rparr> started ''a'' 0)) = 2 \<and>
   failedRequests (stats (processPrefix
      \<lparr>fetch = \<lambda>k p. if k < 2 then Http 429 BadJson else Http 200 (Json (Some [''alice'', ''anna''])),
       now = \<lambda>k. 0\<rparr> started ''a'' 0)) = 0"
proof -
  have skip: "\<not> shouldSkipPrefix started ''a''"
    by (simp add: shouldSkipPrefix_def)
  show ?thesis
    using skip C2_two_rate_limits_then_success [of started "''a''"
      "\<lparr>fetch = \<lambda>k p. if k < 2 then Http 429 BadJson else Http 200 (Json (Some [''alice'', ''anna''])),
        now = \<lambda>k. 0\<rparr>" BadJson BadJson 200 "Some [''alice'', ''anna'']"]
    by (simp add: ok_def)
qed

text \<open>
  Claim C10: when the request throws, or ends with a non-success status (a 429 only once
  the retries are used up), the same call of \<open>processPrefix\<close> increments both the
  failed-request counter and the successful-request counter, since the placeholder
  results go through \<open>handleResults\<close> with \<open>fromCache = false\<close>.
\<close>

theorem C10_failure_counts_as_success_too:
  assumes "isRunning s" and "cachedResults s prefix = None" and "\<not> shouldSkipPrefix s prefix"
    and "\<not> simulationMode s"
    and "fetch e (length (fetchLog s)) prefix = FetchRejected \<or>
         (\<exists>status b. fetch e (length (fetchLog s)) prefix = Http status b \<and> \<not> ok status \<and>
            (status = 429 \<longrightarrow> \<not> int retryCount < maxRetries (options s)))"
  shows "successfulRequests (stats (processPrefix e s prefix retryCount)) =
           successfulRequests (stats s) + 1 \<and>
         failedRequests (stats (processPrefix e s prefix retryCount)) > failedRequests (stats s)"
  using assms(5)
proof (elim disjE exE conjE)
  assume "fetch e (length (fetchLog s)) prefix = FetchRejected"
  then have "processPrefix e s prefix retryCount = processPrefix_catch (requestIssued e s prefix) prefix"
    using assms(1-4) by (intro processPrefix_thrown) simp_all
  then show ?thesis by simp
next
  fix status b
  assume f: "fetch e (length (fetchLog s)) prefix = Http status b" and nok: "\<not> ok status"
    and ex: "status = 429 \<longrightarrow> \<not> int retryCount < maxRetries (options s)"
  show ?thesis
  proof (cases "status = 429")
    case True
    with f ex show ?thesis
      using assms(1-4) processPrefix_exhausted [of s prefix e b retryCount] by simp
  next
    case False
    with f nok show ?thesis
      using assms(1-4) processPrefix_status [of s prefix e status b retryCount] by simp
  qed
qed

theorem C10_failure_counts_as_success_too_witness:
  "isRunning started \<and> cachedResults started ''a'' = None \<and> \<not> shouldSkipPrefix started ''a'' \<and>
   \<not> simulationMode started \<and>
   successfulRequests (stats (processPrefix \<lparr>fetch = \<lambda>k p. FetchRejected, now = \<lambda>k. 0\<rparr> started ''a'' 0)) = 1 \<and>
   failedRequests (stats (processPrefix \<lparr>fetch = \<lambda>k p. FetchRejected, now = \<lambda>k. 0\<rparr> started ''a'' 0)) > 0"
proof -
  have skip: "\<not> shouldSkipPrefix started ''a''"
    by (simp add: shouldSkipPrefix_def)
  show ?thesis
    using skip C10_failure_counts_as_success_too [of started "''a''"
      "\<lparr>fetch = \<lambda>k p. FetchRejected, now = \<lambda>k. 0\<rparr>" 0]
    by simp
qed

text \<open>
  Claim C3 says that a non-success status other than 429 adds one to the failed-request
  counter, as a rejected \<open>fetch\<close> does. The code adds two: it increments the counter,
  throws, and its own \<open>catch\<close> block increments the counter again. Here the first
  request of a started service, for the prefix \<open>a\<close>, is answered with status 500: the
  counter ends at 2, whereas a rejected \<open>fetch\<close> leaves it at 1. One request was sent.
\<close>

theorem C3_status_500_counts_two_failures:
  "failedRequests (stats (processPrefix \<lparr>fetch = \<lambda>k p. Http 500 BadJson, now = \<lambda>k. 0\<rparr> started ''a'' 0)) = 2 \<and>
   failedRequests (stats (processPrefix \<lparr>fetch = \<lambda>k p. FetchRejected, now = \<lambda>k. 0\<rparr> started ''a'' 0)) = 1 \<and>
   fetchLog (processPrefix \<lparr>fetch = \<lambda>k p. Http 500 BadJson, now = \<lambda>k. 0\<rparr> started ''a'' 0) = [''a'']"
proof -
  have skip: "\<not> shouldSkipPrefix started ''a''"
    by (simp add: shouldSkipPrefix_def)
  have a: "processPrefix \<lparr>fetch = \<lambda>k p. Http 500 BadJson, now = \<lambda>k. 0\<rparr> started ''a'' 0 =
     processPrefix_catch
       ((requestIssued \<lparr>fetch = \<lambda>k p. Http 500 BadJson, now = \<lambda>k. 0\<rparr> started ''a'')
          \<lparr>stats := (stats (requestIssued \<lparr>fetch = \<lambda>k p. Http 500 BadJson, now = \<lambda>k. 0\<rparr> started ''a''))
                      \<lparr>failedRequests := failedRequests (stats started) + 1\<rparr>\<rparr>) ''a''"
    using skip by (intro processPrefix_status [where b = BadJson and status = 500]) (simp_all add: ok_def)
  have b: "processPrefix \<lparr>fetch = \<lambda>k p. FetchRejected, now = \<lambda>k. 0\<rparr> started ''a'' 0 =
     processPrefix_catch (requestIssued \<lparr>fetch = \<lambda>k p. FetchRejected, now = \<lambda>k. 0\<rparr> started ''a'') ''a''"
    using skip by (intro processPrefix_thrown) simp_all
  show ?thesis by (simp add: a b)
qed

subsection \<open>Statistics\<close>

text \<open>
  Claim C9: in every state of a run that begins in a state where the list of discovered
  names has no duplicate and the efficiency statistic is the number of distinct
  discovered names divided by the successful-request count, and 0 when that count is 0,
  the list again has no duplicate and the statistic is again that quotient, and 0 when
  the count is 0; so it is after every completed prefix. Handling a result set makes the
  discovered names those known before together with the new ones. A started service,
  fresh or just reset, is such a beginning: it has no name, and its count and its
  statistic are 0.
\<close>

theorem C9_efficiency:
  "(run e s t \<and> distinct (uniqueNames (stats s)) \<and>
    efficiency (stats s) =
      (if successfulRequests (stats s) = 0 then 0
       else of_nat (card (set (uniqueNames (stats s)))) / of_nat (successfulRequests (stats s))) \<longrightarrow>
    distinct (uniqueNames (stats t)) \<and>
    efficiency (stats t) =
      (if successfulRequests (stats t) = 0 then 0
       else of_nat (card (set (uniqueNames (stats t)))) / of_nat (successfulRequests (stats t)))) \<and>
   set (uniqueNames (stats (handleResults s prefix names fromCache))) =
     set (uniqueNames (stats s)) \<union> set names \<and>
   successfulRequests (stats (start (new_DiscoveryServiceV3 opts))) = 0 \<and>
   efficiency (stats (start (new_DiscoveryServiceV3 opts))) = 0 \<and>
   uniqueNames (stats (start (new_DiscoveryServiceV3 opts))) = [] \<and>
   successfulRequests (stats (reset s)) = 0 \<and> efficiency (stats (reset s)) = 0 \<and>
   uniqueNames (stats (reset s)) = [] \<and>
   successfulRequests (stats (start (reset s))) = 0 \<and> efficiency (stats (start (reset s))) = 0 \<and>
   uniqueNames (stats (start (reset s))) = []"
proof -
  have inv: "distinct (uniqueNames (stats t)) \<and>
    efficiency (stats t) =
      (if successfulRequests (stats t) = 0 then 0
       else of_nat (length (uniqueNames (stats t))) / of_nat (successfulRequests (stats t)))"
    if r: "run e s t" and d: "distinct (uniqueNames (stats s))" and i: "efficiency (stats s) =
      (if successfulRequests (stats s) = 0 then 0
       else of_nat (card (set (uniqueNames (stats s)))) / of_nat (successfulRequests (stats s)))"
    using r
  proof (rule run_invariant [where P = "\<lambda>t. distinct (uniqueNames (stats t)) \<and> efficiency (stats t) =
      (if successfulRequests (stats t) = 0 then 0
       else of_nat (length (uniqueNames (stats t))) / of_nat (successfulRequests (stats t)))"], goal_cases)
    case 1
    show ?case using d i by (simp add: distinct_card)
  next
    case (2 t u)
    then show ?case by (simp add: sameCore_def)
  next
    case (3 t prefix retryCount)
    then show ?case
      using processPrefix_efficiency [of t e prefix retryCount]
        processPrefix_distinct [of t e prefix retryCount] by blast
  qed
  have main: "run e s t \<and> distinct (uniqueNames (stats s)) \<and>
    efficiency (stats s) =
      (if successfulRequests (stats s) = 0 then 0
       else of_nat (card (set (uniqueNames (stats s)))) / of_nat (successfulRequests (stats s))) \<longrightarrow>
    distinct (uniqueNames (stats t)) \<and>
    efficiency (stats t) =
      (if successfulRequests (stats t) = 0 then 0
       else of_nat (card (set (uniqueNames (stats t)))) / of_nat (successfulRequests (stats t)))"
  proof (intro impI)
    assume a: "run e s t \<and> distinct (uniqueNames (stats s)) \<and>
    efficiency (stats s) =
      (if successfulRequests (stats s) = 0 then 0
       else of_nat (card (set (uniqueNames (stats s)))) / of_nat (successfulRequests (stats s)))"
    then have "distinct (uniqueNames (stats t)) \<and>
    efficiency (stats t) =
      (if successfulRequests (stats t) = 0 then 0
       else of_nat (length (uniqueNames (stats t))) / of_nat (successfulRequests (stats t)))"
      using inv by blast
    then show "distinct (uniqueNames (stats t)) \<and>
    efficiency (stats t) =
      (if successfulRequests (stats t) = 0 then 0
       else of_nat (card (set (uniqueNames (stats t)))) / of_nat (successfulRequests (stats t)))"
      by (simp add: distinct_card)
  qed
  show ?thesis
    using main by (simp add: start_def reset_def stop_def)
qed

theorem C9_efficiency_witness:
  "run (answers [Http 200 (Json (Some [''alice'', ''anna'', ''alice'']))]) started
     (processPrefix (answers [Http 200 (Json (Some [''alice'', ''anna'', ''alice'']))]) started ''a'' 0) \<and>
   distinct (uniqueNames (stats started)) \<and>
   successfulRequests (stats started) = 0 \<and> efficiency (stats started) = 0 \<and>
   successfulRequests (stats
     (processPrefix (answers [Http 200 (Json (Some [''alice'', ''anna'', ''alice'']))]) started ''a'' 0)) = 1 \<and>
   uniqueNames (stats
     (processPrefix (answers [Http 200 (Json (Some [''alice'', ''anna'', ''alice'']))]) started ''a'' 0)) =
     [''alice'', ''anna''] \<and>
   efficiency (stats
     (processPrefix (answers [Http 200 (Json (Some [''alice'', ''anna'', ''alice'']))]) started ''a'' 0)) = 2"
proof -
  let ?e = "answers [Http 200 (Json (Some [''alice'', ''anna'', ''alice'']))]"
  let ?t = "processPrefix ?e started ''a'' 0"
  have r: "run ?e started ?t"
    by (intro run_process run_init)
  have u: "uniqueNames (stats ?t) = [''alice'', ''anna'']"
    by (simp only: first_ok first_ok_uniqueNames)
  have n: "successfulRequests (stats ?t) = 1"
    by (simp add: first_ok)
  have s: "distinct (uniqueNames (stats started))" "successfulRequests (stats started) = 0"
    "efficiency (stats started) = 0"
    by simp_all
  have "efficiency (stats ?t) =
      (if successfulRequests (stats ?t) = 0 then 0
       else of_nat (card (set (uniqueNames (stats ?t)))) / of_nat (successfulRequests (stats ?t)))"
    using r s C9_efficiency [of ?e started ?t] by simp
  then have f: "efficiency (stats ?t) = 2"
    by (simp add: u n)
  show ?thesis
    using r s u n f by blast
qed

subsection \<open>Result cache\<close>




subsection \<open>Branch blocker\<close>

text \<open>
  Claim C5, as stated, fails in one corner: a queued descendant of a blocked prefix that
  already has a cached result set is not marked skipped when it is processed, because
  the cache is consulted before the skip test. After the run in which \<open>joh\<close> was
  cached and \<open>jo\<close> then blocked, the copy of \<open>joh\<close> that the retry left in the queue
  is processed as a cache hit: it is listed as explored a second time, nothing is marked
  skipped, and no request is sent.
\<close>

theorem C5_cached_descendant_not_skipped:
  "''jo'' \<in> set (blockedPrefixes (stats afterJo)) \<and>
   ''joh'' \<in> set (prefixQueue afterJo) \<and>
   skippedPrefixes (stats (processPrefix johnServer afterJo ''joh'' 0)) = [] \<and>
   exploredPrefixes (stats (processPrefix johnServer afterJo ''joh'' 0)) = [''joh'', ''jo'', ''joh''] \<and>
   fetchLog (processPrefix johnServer afterJo ''joh'' 0) = [''joh'', ''joh'', ''jo'']"
  using processPrefix_cached [of afterJo "''joh''" "[''john'']" johnServer 0]
  by (simp add: afterJo_fields)

text \<open>
  Claim C5, amended: when a completed query for a prefix of length at least 2 yields
  zero results, the prefix is added to the blocked-prefix set. From then on, for the
  rest of the run, it stays blocked and no prefix that has it as a proper prefix is
  dispatched to the remote query function: when such a prefix is processed while the
  service runs, it is marked skipped if it has no cached result set, and is served from
  the cache if it has one.
\<close>

theorem C5_blocked_subtree:
  "(isRunning s \<and> cachedResults s prefix = None \<and> \<not> shouldSkipPrefix s prefix \<and>
    \<not> simulationMode s \<and> fetch e (length (fetchLog s)) prefix = Http status (Json res) \<and>
    ok status \<and> (res = None \<or> res = Some []) \<and> 2 \<le> length prefix \<longrightarrow>
      prefix \<in> set (blockedPrefixes (stats (processPrefix e s prefix r)))) \<and>
   (run e u t \<and> b \<in> set (blockedPrefixes (stats u)) \<and> b \<noteq> [] \<and> length b < length q \<and>
    startsWith q b \<longrightarrow>
      b \<in> set (blockedPrefixes (stats t)) \<and>
      q \<notin> set (drop (length (fetchLog u)) (fetchLog t)) \<and>
      fetchLog (processPrefix e t q r) = fetchLog t \<and>
      (isRunning t \<and> cachedResults t q = None \<longrightarrow>
         skippedPrefixes (stats (processPrefix e t q r)) = skippedPrefixes (stats t) @ [q] \<and>
         exploredPrefixes (stats (processPrefix e t q r)) = exploredPrefixes (stats t)) \<and>
      (isRunning t \<and> cachedResults t q = Some names \<longrightarrow>
         processPrefix e t q r = handleResults t q names True))"
proof -
  have part1: "prefix \<in> set (blockedPrefixes (stats (processPrefix e s prefix r)))"
    if a: "isRunning s \<and> cachedResults s prefix = None \<and> \<not> shouldSkipPrefix s prefix \<and>
      \<not> simulationMode s \<and> fetch e (length (fetchLog s)) prefix = Http status (Json res) \<and>
      ok status \<and> (res = None \<or> res = Some []) \<and> 2 \<le> length prefix"
  proof -
    from a have "processPrefix e s prefix r =
       handleResults
         ((requestIssued e s prefix)
            \<lparr>cachedResults := (cachedResults s)(prefix \<mapsto> (case res of None \<Rightarrow> [] | Some results \<Rightarrow> results))\<rparr>)
         prefix (case res of None \<Rightarrow> [] | Some results \<Rightarrow> results) False"
      by (intro processPrefix_ok) auto
    then show ?thesis using a by auto
  qed
  have part2: "b \<in> set (blockedPrefixes (stats t)) \<and>
      q \<notin> set (drop (length (fetchLog u)) (fetchLog t)) \<and>
      fetchLog (processPrefix e t q r) = fetchLog t \<and>
      (isRunning t \<and> cachedResults t q = None \<longrightarrow>
         skippedPrefixes (stats (processPrefix e t q r)) = skippedPrefixes (stats t) @ [q] \<and>
         exploredPrefixes (stats (processPrefix e t q r)) = exploredPrefixes (stats t)) \<and>
      (isRunning t \<and> cachedResults t q = Some names \<longrightarrow>
         processPrefix e t q r = handleResults t q names True)"
    if a: "run e u t \<and> b \<in> set (blockedPrefixes (stats u)) \<and> b \<noteq> [] \<and> length b < length q \<and>
      startsWith q b"
  proof -
    from a have len: "1 < length q" by (cases b) auto
    from a len have inv: "b \<in> set (blockedPrefixes (stats t))"
      and "\<exists>xs. fetchLog t = fetchLog u @ xs \<and> q \<notin> set xs"
      using run_blocked_not_fetched [of e u t b q] by blast+
    then obtain xs where xs: "fetchLog t = fetchLog u @ xs" "q \<notin> set xs" by blast
    have skip: "shouldSkipPrefix t q"
      using inv a len by (intro shouldSkipPrefix_blocked [of b]) auto
    obtain k where k: "fetchLog (processPrefix e t q r) = fetchLog t @ replicate k q"
        "0 < k \<longleftrightarrow> isRunning t \<and> cachedResults t q = None \<and> \<not> shouldSkipPrefix t q \<and>
                   \<not> simulationMode t"
      using processPrefix_fetchLog [of e t q r] by blast
    have f2: "q \<notin> set (drop (length (fetchLog u)) (fetchLog t))"
      using xs by simp
    have f3: "fetchLog (processPrefix e t q r) = fetchLog t"
      using k skip by (cases k) auto
    have f4: "isRunning t \<and> cachedResults t q = None \<longrightarrow>
         skippedPrefixes (stats (processPrefix e t q r)) = skippedPrefixes (stats t) @ [q] \<and>
         exploredPrefixes (stats (processPrefix e t q r)) = exploredPrefixes (stats t)"
      using skip by (simp add: processPrefix_skipped)
    have f5: "isRunning t \<and> cachedResults t q = Some names \<longrightarrow>
         processPrefix e t q r = handleResults t q names True"
      by (simp add: processPrefix_cached)
    show ?thesis
      by (rule conjI [OF inv conjI [OF f2 conjI [OF f3 conjI [OF f4 f5]]]])
  qed
  show ?thesis
    by (rule conjI [OF impI [OF part1] impI [OF part2]])
qed

theorem C5_blocked_subtree_witness:
  "isRunning afterJoh \<and> cachedResults afterJoh ''jo'' = None \<and> \<not> shouldSkipPrefix afterJoh ''jo'' \<and>
   \<not> simulationMode afterJoh \<and>
   fetch johnServer (length (fetchLog afterJoh)) ''jo'' = Http 200 (Json (Some [])) \<and> ok 200 \<and>
   2 \<le> length ''jo'' \<and> ''jo'' \<in> set (blockedPrefixes (stats afterJo)) \<and>
   run johnServer afterJo afterJo \<and> ''jo'' \<noteq> [] \<and> length ''jo'' < length ''joe'' \<and>
   startsWith ''joe'' ''jo'' \<and> isRunning afterJo \<and> cachedResults afterJo ''joe'' = None \<and>
   cachedResults afterJo ''joh'' = Some [''john''] \<and>
   fetchLog (processPrefix johnServer afterJo ''joe'' 0) = [''joh'', ''joh'', ''jo''] \<and>
   skippedPrefixes (stats (processPrefix johnServer afterJo ''joe'' 0)) = [''joe''] \<and>
   processPrefix johnServer afterJo ''joh'' 0 = handleResults afterJo ''joh'' [''john''] True"
proof -
  have none: "cachedResults afterJo ''joe'' = None"
    by (simp add: afterJo_eq afterJoh_fields)
  have f: "fetch johnServer (length (fetchLog afterJoh)) ''jo'' = Http 200 (Json (Some []))"
    by (simp add: afterJoh_fields johnServer_def)
  show ?thesis
    using none f afterJoh_not_skipped_jo
      C5_blocked_subtree [of afterJoh "''jo''" johnServer 200 "Some []" 0 afterJo afterJo "''jo''" "''joe''" "[]"]
      C5_blocked_subtree [of afterJoh "''jo''" johnServer 200 "Some []" 0 afterJo afterJo "''jo''" "''joh''" "[''john'']"]
    by (simp add: afterJoh_fields afterJo_fields afterJo_def [symmetric] run_init ok_def startsWith_def)
qed

end
